theory Spec2Isabelle
  imports Main
begin

section \<open>The graph IR and the values it carries\<close>

datatype primitive =
    if_prim | return_prim | partial_prim | resolve_prim | cons_tuple_prim
  | other_prim string

datatype namespace = ModuleNamespace string | ClosureNamespace nat

text \<open>
  Host values: what a Constant carries and what the VM computes.  Graphs are
  named by their address.  A float is carried as mantissa and exponent.
\<close>

datatype pyvalue =
    PBool bool | PInt int | PFloat int int | PNone | PStr string
  | PTuple "pyvalue list"
  | PPrimitive primitive
  | PGraph nat
  | PNamespace namespace
  | Closure nat "(nat \<times> pyvalue) list option"
  | Partial nat "pyvalue list"
  | PHostFunction primitive

datatype error =
    MyiaShapeError string
  | AssertionError string
  | AttributeError string
  | NotImplementedError
  | RuntimeError string
  | KeyError
  | IndexError
  | ValueError
  | OutOfFuel

text \<open>
  Nodes are objects with identity: a node is named by its address in the store.
  An Apply owns a growable list of inputs and belongs to a graph.
\<close>

datatype anf_node =
    Apply "nat list" nat
  | Constant pyvalue
  | Parameter nat

record graph =
  parameters :: "nat list"
  return_node :: "nat option"

section \<open>The parser (myia/parser.py)\<close>

record block =
  matured :: bool
  variables :: "string \<rightharpoonup> nat"
  preds :: "nat list"
  phi_nodes :: "nat \<rightharpoonup> string"
  jumps :: "nat \<rightharpoonup> nat"
  graph :: nat

text \<open>
  The store the parser works on: the nodes, graphs and blocks allocated so far
  (each with the next free address), and the two mutable attributes of the
  Parser object, \<open>block_map\<close> and \<open>graph\<close>.
\<close>

record pstate =
  nodes :: "nat \<Rightarrow> anf_node"
  next_node :: nat
  graphs :: "nat \<Rightarrow> graph"
  next_graph :: nat
  blocks :: "nat \<Rightarrow> block"
  next_block :: nat
  block_map :: "nat \<rightharpoonup> nat"
  parser_graph :: "nat option"

text \<open>
  The attributes of a Parser that never change: the function it parses, the
  module of the function (the global namespace) and the names its closure
  namespace contains.
\<close>

record parser =
  function_id :: nat
  function_module :: string
  closure_vars :: "string list"

text \<open>
  A parser operation runs on the store; it returns a value or raises, and the
  store keeps what was written before the exception.
\<close>

type_synonym 'a pm = "pstate \<Rightarrow> (error + 'a) \<times> pstate"

definition pm_return :: "'a \<Rightarrow> 'a pm" where
  "pm_return x = (\<lambda>s. (Inr x, s))"

definition pm_raise :: "error \<Rightarrow> 'a pm" where
  "pm_raise e = (\<lambda>s. (Inl e, s))"

definition pm_bind :: "'a pm \<Rightarrow> ('a \<Rightarrow> 'b pm) \<Rightarrow> 'b pm" where
  "pm_bind m f = (\<lambda>s. case m s of (Inl e, s') \<Rightarrow> (Inl e, s') | (Inr x, s') \<Rightarrow> f x s')"

definition pm_get :: "(pstate \<Rightarrow> 'a) \<Rightarrow> 'a pm" where
  "pm_get f = (\<lambda>s. (Inr (f s), s))"

definition pm_modify :: "(pstate \<Rightarrow> pstate) \<Rightarrow> unit pm" where
  "pm_modify f = (\<lambda>s. (Inr (), f s))"

subsection \<open>Allocation\<close>

definition new_node :: "anf_node \<Rightarrow> nat pm" where
  "new_node nd = (\<lambda>s. (Inr (next_node s),
     s\<lparr>nodes := (nodes s)(next_node s := nd), next_node := Suc (next_node s)\<rparr>))"

definition Graph_new :: "nat pm" where
  "Graph_new = (\<lambda>s. (Inr (next_graph s),
     s\<lparr>graphs := (graphs s)(next_graph s := \<lparr>parameters = [], return_node = None\<rparr>),
       next_graph := Suc (next_graph s)\<rparr>))"

definition Block_new :: "nat pm" where
  "Block_new = pm_bind Graph_new (\<lambda>g s. (Inr (next_block s),
     s\<lparr>blocks := (blocks s)(next_block s :=
          \<lparr>matured = False, variables = Map.empty, preds = [], phi_nodes = Map.empty,
           jumps = Map.empty, graph = g\<rparr>),
       next_block := Suc (next_block s)\<rparr>))"

definition update_block :: "nat \<Rightarrow> (block \<Rightarrow> block) \<Rightarrow> unit pm" where
  "update_block b f = pm_modify (\<lambda>s. s\<lparr>blocks := (blocks s)(b := f (blocks s b))\<rparr>)"

definition update_graph :: "nat \<Rightarrow> (graph \<Rightarrow> graph) \<Rightarrow> unit pm" where
  "update_graph g f = pm_modify (\<lambda>s. s\<lparr>graphs := (graphs s)(g := f (graphs s g))\<rparr>)"

definition block_graph :: "nat \<Rightarrow> nat pm" where
  "block_graph b = pm_get (\<lambda>s. graph (blocks s b))"

text \<open>\<open>_fresh\<close>: if node is a constant, return a copy of it.\<close>

definition fresh :: "nat \<Rightarrow> nat pm" where
  "fresh n = (\<lambda>s. case nodes s n of
                     Constant v \<Rightarrow> new_node (Constant v) s
                   | _ \<Rightarrow> (Inr n, s))"

text \<open>
  Modelled from the spec: \<open>Graph.apply\<close> (myia/ir/anf.py is not among the
  sources).  \<open>apply(callee, ...args)\<close> builds an Apply of the graph; an
  input that is not yet a node is wrapped in a Constant.
\<close>

fun wrap_inputs :: "(pyvalue + nat) list \<Rightarrow> nat list pm" where
  "wrap_inputs [] = pm_return []"
| "wrap_inputs (Inl v # rest) =
     pm_bind (new_node (Constant v)) (\<lambda>n.
     pm_bind (wrap_inputs rest) (\<lambda>ns. pm_return (n # ns)))"
| "wrap_inputs (Inr n # rest) =
     pm_bind (wrap_inputs rest) (\<lambda>ns. pm_return (n # ns))"

definition graph_apply :: "nat \<Rightarrow> (pyvalue + nat) list \<Rightarrow> nat pm" where
  "graph_apply g inputs = pm_bind (wrap_inputs inputs) (\<lambda>ns. new_node (Apply ns g))"

subsection \<open>Parser.get\_block\_function\<close>

definition get_block_function :: "nat \<Rightarrow> nat pm" where
  "get_block_function b = (\<lambda>s.
     case block_map s b of
       Some n \<Rightarrow> fresh n s
     | None \<Rightarrow>
         pm_bind (new_node (Constant (PGraph (graph (blocks s b))))) (\<lambda>n.
         pm_bind (pm_modify (\<lambda>s. s\<lparr>block_map := (block_map s)(b \<mapsto> n)\<rparr>)) (\<lambda>_.
         pm_return n)) s)"

subsection \<open>Block\<close>

definition write_var :: "nat \<Rightarrow> string \<Rightarrow> nat \<Rightarrow> unit pm" where
  "write_var b varnum node =
     update_block b (\<lambda>blk. blk\<lparr>variables := (variables blk)(varnum \<mapsto> node)\<rparr>)"

definition make_resolve :: "nat \<Rightarrow> namespace \<Rightarrow> string \<Rightarrow> nat pm" where
  "make_resolve b module_name symbol_name =
     pm_bind (new_node (Constant (PNamespace module_name))) (\<lambda>c1.
     pm_bind (new_node (Constant (PStr symbol_name))) (\<lambda>c2.
     pm_bind (block_graph b) (\<lambda>g.
     graph_apply g [Inl (PPrimitive resolve_prim), Inr c1, Inr c2])))"

text \<open>\<open>jump.inputs.append(arg)\<close>\<close>

definition append_input :: "nat \<Rightarrow> nat \<Rightarrow> unit pm" where
  "append_input j arg = (\<lambda>s.
     case nodes s j of
       Apply ins g \<Rightarrow> (Inr (), s\<lparr>nodes := (nodes s)(j := Apply (ins @ [arg]) g)\<rparr>)
     | _ \<Rightarrow> (Inl (AttributeError ''inputs''), s))"

text \<open>
  \<open>set_phi_arguments\<close>.  The reads in the predecessors go through \<open>rd\<close>,
  which is \<open>Block.read\<close> with the recursion depth that is left.
\<close>

fun set_phi_preds :: "(nat \<Rightarrow> string \<Rightarrow> nat pm) \<Rightarrow> nat \<Rightarrow> string \<Rightarrow> nat list \<Rightarrow> unit pm" where
  "set_phi_preds rd b varnum [] = pm_return ()"
| "set_phi_preds rd b varnum (pred # rest) =
     pm_bind (rd pred varnum) (\<lambda>arg.
     pm_bind (\<lambda>s. case jumps (blocks s pred) b of
                     None \<Rightarrow> (Inl KeyError, s)
                   | Some j \<Rightarrow> append_input j arg s) (\<lambda>_.
     set_phi_preds rd b varnum rest))"

definition set_phi_arguments :: "(nat \<Rightarrow> string \<Rightarrow> nat pm) \<Rightarrow> nat \<Rightarrow> nat \<Rightarrow> unit pm" where
  "set_phi_arguments rd b phi = (\<lambda>s.
     case phi_nodes (blocks s b) phi of
       None \<Rightarrow> (Inl KeyError, s)
     | Some varnum \<Rightarrow> set_phi_preds rd b varnum (preds (blocks s b)) s)"

text \<open>
  The phi node that \<open>Block.read\<close> makes: \<open>phi = Parameter(self.graph);
  self.graph.parameters.append(phi); self.phi_nodes[phi] = varnum;
  self.write(varnum, phi)\<close>.
\<close>

definition new_phi :: "nat \<Rightarrow> string \<Rightarrow> nat pm" where
  "new_phi b varnum =
     pm_bind (block_graph b) (\<lambda>g.
     pm_bind (new_node (Parameter g)) (\<lambda>phi.
     pm_bind (update_graph g (\<lambda>gr. gr\<lparr>parameters := parameters gr @ [phi]\<rparr>)) (\<lambda>_.
     pm_bind (update_block b (\<lambda>blk. blk\<lparr>phi_nodes := (phi_nodes blk)(phi \<mapsto> varnum)\<rparr>)) (\<lambda>_.
     pm_bind (write_var b varnum phi) (\<lambda>_.
     pm_return phi)))))"

text \<open>
  \<open>Block.read\<close>.  The first argument bounds the depth of the recursion through
  the predecessors; when it is used up the result is \<open>OutOfFuel\<close>.
\<close>

primrec read :: "parser \<Rightarrow> nat \<Rightarrow> nat \<Rightarrow> string \<Rightarrow> nat pm" where
  "read P 0 = (\<lambda>b varnum. pm_raise OutOfFuel)"
| "read P (Suc n) = (\<lambda>b varnum s.
     case variables (blocks s b) varnum of
       Some node \<Rightarrow> fresh node s
     | None \<Rightarrow>
         if matured (blocks s b) \<and> length (preds (blocks s b)) = 1
         then read P n (hd (preds (blocks s b))) varnum s
         else if matured (blocks s b) \<and> preds (blocks s b) = []
         then (if varnum \<in> set (closure_vars P)
               then make_resolve b (ClosureNamespace (function_id P)) varnum s
               else make_resolve b (ModuleNamespace (function_module P)) varnum s)
         else
           pm_bind (new_phi b varnum) (\<lambda>phi.
           pm_bind (\<lambda>s. if matured (blocks s b)
                         then set_phi_arguments (read P n) b phi s
                         else (Inr (), s)) (\<lambda>_.
           pm_return phi)) s)"

text \<open>
  \<open>Block.mature\<close>.  The loop \<open>for phi in self.graph.parameters\<close> runs over
  the live list by position, so it also visits a parameter appended while it runs.
\<close>

primrec mature_loop :: "parser \<Rightarrow> nat \<Rightarrow> nat \<Rightarrow> nat \<Rightarrow> unit pm" where
  "mature_loop P 0 = (\<lambda>b i. pm_raise OutOfFuel)"
| "mature_loop P (Suc n) = (\<lambda>b i s.
     let params = parameters (graphs s (graph (blocks s b))) in
     if i < length params then
       pm_bind (if params ! i \<in> dom (phi_nodes (blocks s b))
                then set_phi_arguments (read P n) b (params ! i)
                else pm_return ()) (\<lambda>_.
       mature_loop P n b (Suc i)) s
     else (Inr (), s))"

definition mature :: "parser \<Rightarrow> nat \<Rightarrow> nat \<Rightarrow> unit pm" where
  "mature P n b =
     pm_bind (mature_loop P n b 0) (\<lambda>_.
     update_block b (\<lambda>blk. blk\<lparr>matured := True\<rparr>))"

text \<open>\<open>assert self.graph.return_ is None; self.graph.return_ = return_\<close>\<close>

definition set_return :: "nat \<Rightarrow> nat \<Rightarrow> unit pm" where
  "set_return g r = (\<lambda>s.
     if return_node (graphs s g) \<noteq> None then (Inl (AssertionError ''''), s)
     else update_graph g (\<lambda>gr. gr\<lparr>return_node := Some r\<rparr>) s)"

definition jump :: "nat \<Rightarrow> nat \<Rightarrow> nat pm" where
  "jump b target =
     pm_bind (get_block_function target) (\<lambda>fn.
     pm_bind (block_graph b) (\<lambda>g.
     pm_bind (new_node (Apply [fn] g)) (\<lambda>jmp.
     pm_bind (update_block b (\<lambda>blk. blk\<lparr>jumps := (jumps blk)(target \<mapsto> jmp)\<rparr>)) (\<lambda>_.
     pm_bind (update_block target (\<lambda>blk. blk\<lparr>preds := preds blk @ [b]\<rparr>)) (\<lambda>_.
     pm_bind (new_node (Constant (PPrimitive return_prim))) (\<lambda>c.
     pm_bind (new_node (Apply [c, jmp] g)) (\<lambda>ret.
     pm_bind (set_return g ret) (\<lambda>_.
     pm_return ret))))))))"

definition cond :: "nat \<Rightarrow> nat \<Rightarrow> nat \<Rightarrow> nat \<Rightarrow> nat pm" where
  "cond b c true false =
     pm_bind (new_node (Constant (PPrimitive if_prim))) (\<lambda>c_if.
     pm_bind (get_block_function true) (\<lambda>t.
     pm_bind (get_block_function false) (\<lambda>f.
     pm_bind (block_graph b) (\<lambda>g.
     pm_bind (new_node (Apply [c_if, c, t, f] g)) (\<lambda>if_node.
     pm_bind (new_node (Constant (PPrimitive return_prim))) (\<lambda>c_ret.
     pm_bind (new_node (Apply [c_ret, if_node] g)) (\<lambda>ret.
     pm_bind (set_return g ret) (\<lambda>_.
     pm_return ret))))))))"

subsection \<open>The syntax trees the parser reads\<close>

text \<open>The operator classes of Python's \<open>ast\<close> module (the keys of \<open>ast_map\<close> and \<open>NotIn\<close>).\<close>

datatype ast_op =
    Add | Sub | Mult | Div | FloorDiv | Mod | Pow_op | MatMult | LShift | RShift
  | BitAnd | BitOr | BitXor
  | UAdd | USub | Invert | Not_op
  | Eq | NotEq | Lt | Gt | LtE | GtE | Is | IsNot | In | NotIn

datatype expr =
    BinOp expr ast_op expr
  | UnaryOp ast_op expr
  | Compare expr "ast_op list" "expr list"
  | Name string
  | Num pyvalue
  | Str string
  | Call expr "expr list"
  | NameConstant pyvalue
  | Tuple "expr list"
  | Subscript expr slice
  | Attribute expr string
  | OtherExpr string
and slice =
    Index expr
  | OtherSlice string

datatype stmt =
    FunctionDef string "string list" "stmt list"
  | Return "expr option"
  | Assign "expr list" expr
  | Expr expr
  | If_stmt expr "stmt list" "stmt list"
  | While expr "stmt list" "stmt list"
  | OtherStmt string

definition operator_ns :: namespace where
  "operator_ns = ModuleNamespace ''operator''"

definition builtins_ns :: namespace where
  "builtins_ns = ModuleNamespace ''builtins''"

fun ast_map :: "ast_op \<Rightarrow> (namespace \<times> string) option" where
  "ast_map Add = Some (operator_ns, ''add'')"
| "ast_map Sub = Some (operator_ns, ''sub'')"
| "ast_map Mult = Some (operator_ns, ''mul'')"
| "ast_map Div = Some (operator_ns, ''truediv'')"
| "ast_map FloorDiv = Some (operator_ns, ''floordiv'')"
| "ast_map Mod = Some (operator_ns, ''mod'')"
| "ast_map Pow_op = Some (operator_ns, ''pow'')"
| "ast_map MatMult = Some (operator_ns, ''matmul'')"
| "ast_map LShift = Some (operator_ns, ''lshift'')"
| "ast_map RShift = Some (operator_ns, ''rshift'')"
| "ast_map BitAnd = Some (operator_ns, ''and_'')"
| "ast_map BitOr = Some (operator_ns, ''or_'')"
| "ast_map BitXor = Some (operator_ns, ''xor'')"
| "ast_map UAdd = Some (operator_ns, ''pos'')"
| "ast_map USub = Some (operator_ns, ''neg'')"
| "ast_map Invert = Some (operator_ns, ''invert'')"
| "ast_map Not_op = Some (operator_ns, ''not_'')"
| "ast_map Eq = Some (operator_ns, ''eq'')"
| "ast_map NotEq = Some (operator_ns, ''ne'')"
| "ast_map Lt = Some (operator_ns, ''lt'')"
| "ast_map Gt = Some (operator_ns, ''gt'')"
| "ast_map LtE = Some (operator_ns, ''le'')"
| "ast_map GtE = Some (operator_ns, ''ge'')"
| "ast_map Is = Some (operator_ns, ''is_'')"
| "ast_map IsNot = Some (operator_ns, ''is_not'')"
| "ast_map In = Some (operator_ns, ''contains'')"
| "ast_map NotIn = None"

subsection \<open>Expressions\<close>

definition resolve_ast_type :: "nat \<Rightarrow> ast_op \<Rightarrow> nat pm" where
  "resolve_ast_type b op =
     (case ast_map op of
        None \<Rightarrow> pm_raise KeyError
      | Some (ns, name) \<Rightarrow> make_resolve b ns name)"

fun resolve_ops :: "nat \<Rightarrow> ast_op list \<Rightarrow> nat list pm" where
  "resolve_ops b [] = pm_return []"
| "resolve_ops b (op # rest) =
     pm_bind (resolve_ast_type b op) (\<lambda>n.
     pm_bind (resolve_ops b rest) (\<lambda>ns. pm_return (n # ns)))"

text \<open>The local function \<open>cons\<close> of \<open>process_Tuple\<close>.\<close>

fun cons :: "nat \<Rightarrow> nat \<Rightarrow> nat list \<Rightarrow> nat pm" where
  "cons b op [] = new_node (Constant (PTuple []))"
| "cons b op (x # rest) =
     pm_bind (cons b op rest) (\<lambda>r.
     pm_bind (block_graph b) (\<lambda>g.
     new_node (Apply [op, x, r] g)))"

fun process_expr :: "parser \<Rightarrow> nat \<Rightarrow> nat \<Rightarrow> expr \<Rightarrow> nat pm"
  and process_exprs :: "parser \<Rightarrow> nat \<Rightarrow> nat \<Rightarrow> expr list \<Rightarrow> nat list pm"
  and process_slice :: "parser \<Rightarrow> nat \<Rightarrow> nat \<Rightarrow> slice \<Rightarrow> nat pm" where
  "process_expr P d b (BinOp left op right) =
     pm_bind (resolve_ast_type b op) (\<lambda>func.
     pm_bind (process_expr P d b left) (\<lambda>l.
     pm_bind (process_expr P d b right) (\<lambda>r.
     pm_bind (block_graph b) (\<lambda>g.
     new_node (Apply [func, l, r] g)))))"
| "process_expr P d b (UnaryOp op operand) =
     pm_bind (resolve_ast_type b op) (\<lambda>func.
     pm_bind (process_expr P d b operand) (\<lambda>x.
     pm_bind (block_graph b) (\<lambda>g.
     new_node (Apply [func, x] g))))"
| "process_expr P d b (Compare left ops comparators) =
     pm_bind (resolve_ops b ops) (\<lambda>fs.
     if length fs \<noteq> 1 then pm_raise (AssertionError '''')
     else
       pm_bind (process_expr P d b left) (\<lambda>l.
       pm_bind (case comparators of
                  [] \<Rightarrow> pm_raise IndexError
                | c # _ \<Rightarrow> process_expr P d b c) (\<lambda>r.
       pm_bind (block_graph b) (\<lambda>g.
       new_node (Apply [hd fs, l, r] g)))))"
| "process_expr P d b (Name ident) = read P d b ident"
| "process_expr P d b (Num n) = new_node (Constant n)"
| "process_expr P d b (Str s) = pm_raise (AttributeError ''environment'')"
| "process_expr P d b (Call func args) =
     pm_bind (process_expr P d b func) (\<lambda>f.
     pm_bind (process_exprs P d b args) (\<lambda>xs.
     pm_bind (block_graph b) (\<lambda>g.
     new_node (Apply (f # xs) g))))"
| "process_expr P d b (NameConstant v) = new_node (Constant v)"
| "process_expr P d b (Tuple elts) =
     pm_bind (new_node (Constant (PPrimitive cons_tuple_prim))) (\<lambda>op.
     pm_bind (process_exprs P d b elts) (\<lambda>xs.
     cons b op xs))"
| "process_expr P d b (Subscript v sl) =
     pm_bind (make_resolve b operator_ns ''getitem'') (\<lambda>op.
     pm_bind (process_expr P d b v) (\<lambda>x.
     pm_bind (process_slice P d b sl) (\<lambda>i.
     pm_bind (block_graph b) (\<lambda>g.
     new_node (Apply [op, x, i] g)))))"
| "process_expr P d b (Attribute v attr) =
     pm_bind (make_resolve b builtins_ns ''getattr'') (\<lambda>op.
     pm_bind (process_expr P d b v) (\<lambda>x.
     pm_bind (new_node (Constant (PStr attr))) (\<lambda>c.
     pm_bind (block_graph b) (\<lambda>g.
     new_node (Apply [op, x, c] g)))))"
| "process_expr P d b (OtherExpr cls) = pm_raise NotImplementedError"
| "process_exprs P d b [] = pm_return []"
| "process_exprs P d b (e # es) =
     pm_bind (process_expr P d b e) (\<lambda>x.
     pm_bind (process_exprs P d b es) (\<lambda>xs. pm_return (x # xs)))"
| "process_slice P d b (Index v) = process_expr P d b v"
| "process_slice P d b (OtherSlice cls) = pm_raise NotImplementedError"

subsection \<open>Statements\<close>

text \<open>The local function \<open>write\<close> of \<open>process_Assign\<close>.\<close>

fun assign_write :: "nat \<Rightarrow> expr \<Rightarrow> nat \<Rightarrow> unit pm"
  and assign_write_elts :: "nat \<Rightarrow> expr list \<Rightarrow> int \<Rightarrow> nat \<Rightarrow> unit pm" where
  "assign_write b (Name ident) anf_node = write_var b ident anf_node"
| "assign_write b (Tuple elts) anf_node = assign_write_elts b elts 0 anf_node"
| "assign_write b (BinOp _ _ _) anf_node = pm_raise NotImplementedError"
| "assign_write b (UnaryOp _ _) anf_node = pm_raise NotImplementedError"
| "assign_write b (Compare _ _ _) anf_node = pm_raise NotImplementedError"
| "assign_write b (Num _) anf_node = pm_raise NotImplementedError"
| "assign_write b (Str _) anf_node = pm_raise NotImplementedError"
| "assign_write b (Call _ _) anf_node = pm_raise NotImplementedError"
| "assign_write b (NameConstant _) anf_node = pm_raise NotImplementedError"
| "assign_write b (Subscript _ _) anf_node = pm_raise NotImplementedError"
| "assign_write b (Attribute _ _) anf_node = pm_raise NotImplementedError"
| "assign_write b (OtherExpr _) anf_node = pm_raise NotImplementedError"
| "assign_write_elts b [] i anf_node = pm_return ()"
| "assign_write_elts b (elt # rest) i anf_node =
     pm_bind (make_resolve b operator_ns ''getitem'') (\<lambda>op.
     pm_bind (new_node (Constant (PInt i))) (\<lambda>c.
     pm_bind (block_graph b) (\<lambda>g.
     pm_bind (new_node (Apply [op, anf_node, c] g)) (\<lambda>new.
     pm_bind (assign_write b elt new) (\<lambda>_.
     assign_write_elts b rest (i + 1) anf_node)))))"

fun assign_targets :: "nat \<Rightarrow> expr list \<Rightarrow> nat \<Rightarrow> unit pm" where
  "assign_targets b [] anf_node = pm_return ()"
| "assign_targets b (targ # rest) anf_node =
     pm_bind (assign_write b targ anf_node) (\<lambda>_. assign_targets b rest anf_node)"

text \<open>The parameters of a function definition: \<open>for arg in node.args.args\<close>.\<close>

fun add_parameters :: "nat \<Rightarrow> string list \<Rightarrow> unit pm" where
  "add_parameters b [] = pm_return ()"
| "add_parameters b (arg # rest) =
     pm_bind (block_graph b) (\<lambda>g.
     pm_bind (new_node (Parameter g)) (\<lambda>anf_node.
     pm_bind (update_graph g (\<lambda>gr. gr\<lparr>parameters := parameters gr @ [anf_node]\<rparr>)) (\<lambda>_.
     pm_bind (write_var b arg anf_node) (\<lambda>_.
     add_parameters b rest))))"

text \<open>\<open>if not blk.graph.return_: blk.jump(target)\<close>, as \<open>process_If\<close> and
  \<open>process_While\<close> end each body.\<close>

definition jump_if_no_return :: "nat \<Rightarrow> nat \<Rightarrow> unit pm" where
  "jump_if_no_return b target = (\<lambda>s.
     if return_node (graphs s (graph (blocks s b))) = None
     then pm_bind (jump b target) (\<lambda>_. pm_return ()) s
     else (Inr (), s))"

text \<open>\<open>self.graph = g_ct.value\<close>\<close>

definition set_parser_graph :: "nat \<Rightarrow> unit pm" where
  "set_parser_graph g_ct = (\<lambda>s.
     case nodes s g_ct of
       Constant (PGraph g) \<Rightarrow> (Inr (), s\<lparr>parser_graph := Some g\<rparr>)
     | _ \<Rightarrow> (Inl (AttributeError ''value''), s))"

fun process_stmt :: "parser \<Rightarrow> nat \<Rightarrow> nat \<Rightarrow> stmt \<Rightarrow> nat pm"
  and process_statements :: "parser \<Rightarrow> nat \<Rightarrow> nat \<Rightarrow> stmt list \<Rightarrow> nat pm"
  and process_function ::
    "parser \<Rightarrow> nat \<Rightarrow> nat option \<Rightarrow> string \<Rightarrow> string list \<Rightarrow> stmt list \<Rightarrow> (nat \<times> nat) pm" where
  "process_stmt P d b (FunctionDef name args body) =
     pm_bind (process_function P d (Some b) name args body) (\<lambda>(final_block, function_block).
     pm_bind (get_block_function function_block) (\<lambda>fn.
     pm_bind (write_var b name fn) (\<lambda>_.
     pm_return b)))"
| "process_stmt P d b (Return v) =
     pm_bind (new_node (Constant (PPrimitive return_prim))) (\<lambda>c.
     pm_bind (case v of
                None \<Rightarrow> pm_raise NotImplementedError
              | Some e \<Rightarrow> process_expr P d b e) (\<lambda>x.
     pm_bind (block_graph b) (\<lambda>g.
     pm_bind (new_node (Apply [c, x] g)) (\<lambda>ret.
     pm_bind (set_return g ret) (\<lambda>_.
     pm_return b)))))"
| "process_stmt P d b (Assign targets v) =
     pm_bind (process_expr P d b v) (\<lambda>anf_node.
     pm_bind (assign_targets b targets anf_node) (\<lambda>_.
     pm_return b))"
| "process_stmt P d b (Expr v) = pm_return b"
| "process_stmt P d b (If_stmt test body orelse) =
     pm_bind (process_expr P d b test) (\<lambda>c.
     pm_bind Block_new (\<lambda>true_block.
     pm_bind Block_new (\<lambda>false_block.
     pm_bind (update_block true_block (\<lambda>blk. blk\<lparr>preds := preds blk @ [b]\<rparr>)) (\<lambda>_.
     pm_bind (update_block false_block (\<lambda>blk. blk\<lparr>preds := preds blk @ [b]\<rparr>)) (\<lambda>_.
     pm_bind (mature P d true_block) (\<lambda>_.
     pm_bind (mature P d false_block) (\<lambda>_.
     pm_bind Block_new (\<lambda>after_block.
     pm_bind (process_statements P d true_block body) (\<lambda>true_end.
     pm_bind (jump_if_no_return true_end after_block) (\<lambda>_.
     pm_bind (process_statements P d false_block orelse) (\<lambda>false_end.
     pm_bind (jump_if_no_return false_end after_block) (\<lambda>_.
     pm_bind (cond b c true_block false_block) (\<lambda>_.
     pm_bind (mature P d after_block) (\<lambda>_.
     pm_return after_block))))))))))))))"
| "process_stmt P d b (While test body orelse) =
     pm_bind Block_new (\<lambda>header_block.
     pm_bind Block_new (\<lambda>body_block.
     pm_bind Block_new (\<lambda>after_block.
     pm_bind (update_block body_block (\<lambda>blk. blk\<lparr>preds := preds blk @ [header_block]\<rparr>)) (\<lambda>_.
     pm_bind (update_block after_block (\<lambda>blk. blk\<lparr>preds := preds blk @ [header_block]\<rparr>)) (\<lambda>_.
     pm_bind (jump b header_block) (\<lambda>_.
     pm_bind (process_expr P d header_block test) (\<lambda>c.
     pm_bind (mature P d body_block) (\<lambda>_.
     pm_bind (cond header_block c body_block after_block) (\<lambda>_.
     pm_bind (process_statements P d body_block body) (\<lambda>after_body.
     pm_bind (jump_if_no_return after_body header_block) (\<lambda>_.
     pm_bind (mature P d header_block) (\<lambda>_.
     pm_bind (mature P d after_block) (\<lambda>_.
     pm_return after_block)))))))))))))"
| "process_stmt P d b (OtherStmt cls) = pm_raise NotImplementedError"
| "process_statements P d b [] = pm_return b"
| "process_statements P d b (node # rest) =
     pm_bind (process_stmt P d b node) (\<lambda>b'. process_statements P d b' rest)"
| "process_function P d blk name args body =
     pm_bind Block_new (\<lambda>function_block.
     pm_bind (case blk of
                Some b \<Rightarrow> update_block function_block (\<lambda>blk. blk\<lparr>preds := preds blk @ [b]\<rparr>)
              | None \<Rightarrow> pm_bind (get_block_function function_block) set_parser_graph) (\<lambda>_.
     pm_bind (mature P d function_block) (\<lambda>_.
     pm_bind (add_parameters function_block args) (\<lambda>_.
     pm_bind (get_block_function function_block) (\<lambda>fn.
     pm_bind (write_var function_block name fn) (\<lambda>_.
     pm_bind (process_statements P d function_block body) (\<lambda>final_block.
     pm_return (final_block, function_block))))))))"

subsection \<open>parse and its cache\<close>

text \<open>
  A function handed to \<open>parse\<close>: its identity, its module, the names its
  closure binds and the body of the module that \<open>ast.parse\<close> makes of its source.
\<close>

record func =
  func_id :: nat
  func_module :: string
  func_freevars :: "string list"
  func_source :: "stmt list"

text \<open>\<open>Parser.__init__\<close>\<close>

definition Parser_new :: "func \<Rightarrow> parser" where
  "Parser_new f =
     \<lparr>function_id = func_id f, function_module = func_module f,
      closure_vars = func_freevars f\<rparr>"

text \<open>\<open>Parser.parse\<close>\<close>

definition Parser_parse :: "parser \<Rightarrow> nat \<Rightarrow> stmt list \<Rightarrow> nat pm" where
  "Parser_parse P d body =
     (case body of
        [] \<Rightarrow> pm_raise IndexError
      | FunctionDef name args stmts # _ \<Rightarrow>
          pm_bind (process_function P d None name args stmts) (\<lambda>(final_block, function_block).
          block_graph function_block)
      | _ \<Rightarrow> pm_raise (AssertionError ''''))"

text \<open>
  The module-level state: the store of all objects and \<open>_parse_cache\<close>, which
  maps a function to its graph.
\<close>

record world =
  store :: pstate
  parse_cache :: "nat \<rightharpoonup> nat"

definition parse :: "nat \<Rightarrow> func \<Rightarrow> world \<Rightarrow> (error + nat) \<times> world" where
  "parse d f w =
     (case parse_cache w (func_id f) of
        Some g \<Rightarrow> (Inr g, w)
      | None \<Rightarrow>
          (case Parser_parse (Parser_new f) d (func_source f)
                  ((store w)\<lparr>block_map := Map.empty, parser_graph := None\<rparr>) of
             (Inl e, s') \<Rightarrow> (Inl e, w\<lparr>store := s'\<rparr>)
           | (Inr g, s') \<Rightarrow>
               (Inr g, w\<lparr>store := s', parse_cache := (parse_cache w)(func_id f \<mapsto> g)\<rparr>)))"

text \<open>The state after a sequence of calls of \<open>parse\<close>, each with its own depth bound.\<close>

fun parse_calls :: "(nat \<times> func) list \<Rightarrow> world \<Rightarrow> world" where
  "parse_calls [] w = w"
| "parse_calls ((d, f) # rest) w = parse_calls rest (snd (parse d f w))"

subsection \<open>Examples\<close>

definition empty_block :: block where
  "empty_block = \<lparr>matured = False, variables = Map.empty, preds = [], phi_nodes = Map.empty,
                  jumps = Map.empty, graph = 0\<rparr>"

definition empty_store :: pstate where
  "empty_store =
     \<lparr>nodes = (\<lambda>_. Parameter 0), next_node = 0,
      graphs = (\<lambda>_. \<lparr>parameters = [], return_node = None\<rparr>), next_graph = 0,
      blocks = (\<lambda>_. empty_block), next_block = 0,
      block_map = Map.empty, parser_graph = None\<rparr>"

text \<open>\<open>def f(x): return x\<close>\<close>

definition example_func :: func where
  "example_func =
     \<lparr>func_id = 0, func_module = ''__main__'', func_freevars = [],
      func_source = [FunctionDef ''f'' [''x''] [Return (Some (Name ''x''))]]\<rparr>"

definition example_world :: world where
  "example_world = \<lparr>store = empty_store, parse_cache = Map.empty\<rparr>"

text \<open>
  A matured block without predecessors that binds \<open>x\<close> to the constant 1 and \<open>y\<close> to
  a parameter, an immature block, and a matured block whose one predecessor is
  the first block.
\<close>

definition example_parser :: parser where
  "example_parser = \<lparr>function_id = 0, function_module = ''__main__'', closure_vars = [''k'']\<rparr>"

definition local_store :: pstate where
  "local_store =
     \<lparr>nodes = (\<lambda>_. Parameter 0)(0 := Constant (PInt 1), 1 := Parameter 0), next_node = 2,
      graphs = (\<lambda>_. \<lparr>parameters = [], return_node = None\<rparr>)
                 (0 := \<lparr>parameters = [1], return_node = None\<rparr>),
      next_graph = 3,
      blocks = (\<lambda>_. empty_block)
                 (0 := \<lparr>matured = True, variables = [''x'' \<mapsto> 0, ''y'' \<mapsto> 1], preds = [],
                        phi_nodes = Map.empty, jumps = Map.empty, graph = 0\<rparr>,
                  1 := \<lparr>matured = False, variables = Map.empty, preds = [],
                        phi_nodes = Map.empty, jumps = Map.empty, graph = 1\<rparr>,
                  2 := \<lparr>matured = True, variables = Map.empty, preds = [0],
                        phi_nodes = Map.empty, jumps = Map.empty, graph = 2\<rparr>),
      next_block = 3,
      block_map = Map.empty, parser_graph = Some 0\<rparr>"

text \<open>A block whose graph already has a return node.\<close>

definition returned_store :: pstate where
  "returned_store =
     \<lparr>nodes = (\<lambda>_. Parameter 0)(0 := Constant (PInt 1), 1 := Apply [0] 0), next_node = 2,
      graphs = (\<lambda>_. \<lparr>parameters = [], return_node = None\<rparr>)
                 (0 := \<lparr>parameters = [], return_node = Some 1\<rparr>),
      next_graph = 1,
      blocks = (\<lambda>_. empty_block)
                 (0 := \<lparr>matured = True, variables = Map.empty, preds = [],
                        phi_nodes = Map.empty, jumps = Map.empty, graph = 0\<rparr>),
      next_block = 1,
      block_map = Map.empty, parser_graph = Some 0\<rparr>"

section \<open>The virtual machine (myia/vm.py)\<close>

text \<open>
  \<open>VMFrame\<close>: the values computed so far (\<open>values\<close> in the source), the nodes
  that remain to be handled (the next one is the last of the list) and the
  values of the closure, if the frame runs a closure.
\<close>

record vmframe =
  frame_values :: "nat \<rightharpoonup> pyvalue"
  todo :: "nat list"
  closure :: "(nat \<times> pyvalue) list option"

text \<open>
  What a VM is built from and never changes while it evaluates: the store of
  nodes and graphs, the free variables of each graph (\<open>self._vars\<close>, filled in
  by the graph manager), the order in which the nodes of a graph are handled
  (\<open>toposort(graph.return_, self._succ_vm, fvb(graph, False))\<close>; graph\_utils is
  not among the sources), the implementations of the primitives and the
  conversion of arguments.
\<close>

record vm =
  vm_nodes :: "nat \<Rightarrow> anf_node"
  vm_graphs :: "nat \<Rightarrow> graph"
  vm_vars :: "nat \<Rightarrow> nat list"
  vm_order :: "nat \<Rightarrow> nat list"
  implementations :: "primitive \<Rightarrow> pyvalue list \<Rightarrow> error + pyvalue"
  py_implementations :: "primitive \<rightharpoonup> pyvalue"
  convert :: "pyvalue list \<Rightarrow> error + pyvalue list"

text \<open>The signals of \<open>_handle_node\<close>: it returns, or raises \<open>_Call\<close>, \<open>_Return\<close> or an error.\<close>

datatype signal =
    Normal vmframe
  | Call_signal vmframe
  | Return_signal pyvalue
  | Raise error

definition VMFrame_new :: "nat list \<Rightarrow> (nat \<times> pyvalue) list option \<Rightarrow> vmframe" where
  "VMFrame_new ns clos = \<lparr>frame_values = Map.empty, todo = rev ns, closure = clos\<rparr>"

text \<open>\<open>VMFrame.__getitem__\<close>\<close>

definition frame_get :: "vm \<Rightarrow> vmframe \<Rightarrow> nat \<Rightarrow> error + pyvalue" where
  "frame_get m fr node =
     (case frame_values fr node of
        Some v \<Rightarrow> Inr v
      | None \<Rightarrow>
          (case (case closure fr of None \<Rightarrow> None | Some c \<Rightarrow> map_of c node) of
             Some v \<Rightarrow> Inr v
           | None \<Rightarrow>
               (case vm_nodes m node of
                  Constant v \<Rightarrow> Inr v
                | _ \<Rightarrow> Inl ValueError)))"

fun frame_gets :: "vm \<Rightarrow> vmframe \<Rightarrow> nat list \<Rightarrow> error + pyvalue list" where
  "frame_gets m fr [] = Inr []"
| "frame_gets m fr (a # rest) =
     (case frame_get m fr a of
        Inl e \<Rightarrow> Inl e
      | Inr v \<Rightarrow>
          (case frame_gets m fr rest of
             Inl e \<Rightarrow> Inl e
           | Inr vs \<Rightarrow> Inr (v # vs)))"

definition set_node_value :: "vmframe \<Rightarrow> nat \<Rightarrow> pyvalue \<Rightarrow> vmframe" where
  "set_node_value fr node v = fr\<lparr>frame_values := (frame_values fr)(node \<mapsto> v)\<rparr>"

fun set_parameters :: "vmframe \<Rightarrow> (nat \<times> pyvalue) list \<Rightarrow> vmframe" where
  "set_parameters fr [] = fr"
| "set_parameters fr ((p, arg) # rest) = set_parameters (set_node_value fr p arg) rest"

text \<open>The frame of a call, as \<open>evaluate\<close> and \<open>_call\<close> build it.\<close>

definition call_frame ::
  "vm \<Rightarrow> nat \<Rightarrow> pyvalue list \<Rightarrow> (nat \<times> pyvalue) list option \<Rightarrow> error + vmframe" where
  "call_frame m g args clos =
     (if length args \<noteq> length (parameters (vm_graphs m g))
      then Inl (RuntimeError ''Call with wrong number of arguments'')
      else Inr (set_parameters (VMFrame_new (vm_order m g) clos)
                  (zip (parameters (vm_graphs m g)) args)))"

text \<open>\<open>VM._call\<close>: it never returns; it raises \<open>_Call\<close> or an error.\<close>

definition vm_call :: "vm \<Rightarrow> pyvalue \<Rightarrow> pyvalue list \<Rightarrow> signal" where
  "vm_call m fn args =
     (case (case fn of
              Closure g vals \<Rightarrow> Inr (g, args, vals)
            | Partial g pargs \<Rightarrow> Inr (g, pargs @ args, None)
            | PGraph g \<Rightarrow> Inr (g, args, None)
            | _ \<Rightarrow> Inl (AttributeError ''parameters'')) of
        Inl e \<Rightarrow> Raise e
      | Inr (g, args', clos) \<Rightarrow>
          (case call_frame m g args' clos of
             Inl e \<Rightarrow> Raise e
           | Inr frame \<Rightarrow> Call_signal frame))"

fun closure_values :: "vm \<Rightarrow> vmframe \<Rightarrow> nat list \<Rightarrow> error + (nat \<times> pyvalue) list" where
  "closure_values m fr [] = Inr []"
| "closure_values m fr (v # rest) =
     (case frame_get m fr v of
        Inl e \<Rightarrow> Inl e
      | Inr x \<Rightarrow>
          (case closure_values m fr rest of
             Inl e \<Rightarrow> Inl e
           | Inr c \<Rightarrow> Inr ((v, x) # c)))"

definition make_closure :: "vm \<Rightarrow> nat \<Rightarrow> vmframe \<Rightarrow> error + pyvalue" where
  "make_closure m g fr =
     (case closure_values m fr (vm_vars m g) of
        Inl e \<Rightarrow> Inl e
      | Inr c \<Rightarrow> Inr (Closure g (Some c)))"

text \<open>The truth value Python gives a host value (\<open>if args[0]:\<close>).\<close>

fun truthy :: "pyvalue \<Rightarrow> bool" where
  "truthy (PBool b) = b"
| "truthy (PInt i) = (i \<noteq> 0)"
| "truthy (PFloat mant ex) = (mant \<noteq> 0)"
| "truthy PNone = False"
| "truthy (PStr s) = (s \<noteq> [])"
| "truthy (PTuple xs) = (xs \<noteq> [])"
| "truthy _ = True"

text \<open>The dispatch of an Apply whose callee is a Primitive.\<close>

definition handle_primitive ::
  "vm \<Rightarrow> nat \<Rightarrow> vmframe \<Rightarrow> primitive \<Rightarrow> pyvalue list \<Rightarrow> signal" where
  "handle_primitive m node fr fn args =
     (if fn = if_prim then
        (case args of
           [] \<Rightarrow> Raise IndexError
         | c # rest \<Rightarrow>
             if truthy c
             then (case rest of [] \<Rightarrow> Raise IndexError | t # _ \<Rightarrow> vm_call m t [])
             else (case rest of t # f # _ \<Rightarrow> vm_call m f [] | _ \<Rightarrow> Raise IndexError))
      else if fn = return_prim then
        (case args of [] \<Rightarrow> Raise IndexError | v # _ \<Rightarrow> Return_signal v)
      else if fn = partial_prim then
        (case args of
           [] \<Rightarrow> Raise ValueError
         | partial_fn # partial_args \<Rightarrow>
             (case partial_fn of
                PGraph g \<Rightarrow> Normal (set_node_value fr node (Partial g partial_args))
              | _ \<Rightarrow> Raise (AssertionError '''')))
      else
        (case implementations m fn args of
           Inl e \<Rightarrow> Raise e
         | Inr res \<Rightarrow> Normal (set_node_value fr node res)))"

definition handle_node :: "vm \<Rightarrow> nat \<Rightarrow> vmframe \<Rightarrow> signal" where
  "handle_node m node fr =
     (case vm_nodes m node of
        Constant v \<Rightarrow>
          if (case closure fr of None \<Rightarrow> False | Some c \<Rightarrow> map_of c node \<noteq> None)
          then Normal fr
          else (case v of
                  PGraph g \<Rightarrow>
                    if length (vm_vars m g) \<noteq> 0
                    then (case make_closure m g fr of
                            Inl e \<Rightarrow> Raise e
                          | Inr c \<Rightarrow> Normal (set_node_value fr node c))
                    else Normal fr
                | _ \<Rightarrow> Raise (AssertionError ''''))
      | Parameter _ \<Rightarrow> Normal fr
      | Apply inputs _ \<Rightarrow>
          (case inputs of
             [] \<Rightarrow> Raise IndexError
           | f # rest \<Rightarrow>
               (case frame_get m fr f of
                  Inl e \<Rightarrow> Raise e
                | Inr fn \<Rightarrow>
                    (case frame_gets m fr rest of
                       Inl e \<Rightarrow> Raise e
                     | Inr args \<Rightarrow>
                         (case fn of
                            PPrimitive p \<Rightarrow> handle_primitive m node fr p args
                          | _ \<Rightarrow> vm_call m fn args)))))"

text \<open>
  The inner loop of \<open>evaluate\<close>: \<open>while todo: self._handle_node(todo[-1], frame);
  todo.pop()\<close>.  It ends when the list is used up or when a node raises; the
  node that raised is still the last of \<open>todo\<close> then.
\<close>

datatype interrupt =
    Exhausted
  | Called vmframe
  | Returned pyvalue
  | Raised error

function run_frame :: "vm \<Rightarrow> vmframe \<Rightarrow> interrupt \<times> vmframe" where
  "run_frame m fr =
     (if todo fr = [] then (Exhausted, fr)
      else (case handle_node m (last (todo fr)) fr of
              Normal fr' \<Rightarrow> run_frame m (fr'\<lparr>todo := butlast (todo fr)\<rparr>)
            | Call_signal c \<Rightarrow> (Called c, fr)
            | Return_signal v \<Rightarrow> (Returned v, fr)
            | Raise e \<Rightarrow> (Raised e, fr)))"
  by pat_completeness auto

termination
  by (relation "measure (\<lambda>(m, fr). length (todo fr))") auto

declare run_frame.simps [simp del]

text \<open>\<open>VM.export\<close>\<close>

fun export :: "vm \<Rightarrow> pyvalue \<Rightarrow> error + pyvalue"
  and export_sequence :: "vm \<Rightarrow> pyvalue list \<Rightarrow> error + pyvalue list" where
  "export m (PTuple xs) =
     (case export_sequence m xs of Inl e \<Rightarrow> Inl e | Inr ys \<Rightarrow> Inr (PTuple ys))"
| "export m (Closure g vals) = Inr (Closure g vals)"
| "export m (PGraph g) = Inr (Closure g None)"
| "export m (PPrimitive p) =
     (case py_implementations m p of None \<Rightarrow> Inl KeyError | Some f \<Rightarrow> Inr f)"
| "export m (PBool b) = Inr (PBool b)"
| "export m (PInt i) = Inr (PInt i)"
| "export m (PFloat mant ex) = Inr (PFloat mant ex)"
| "export m PNone = Inr PNone"
| "export m (PStr s) = Inr (PStr s)"
| "export m (PNamespace ns) = Inr (PNamespace ns)"
| "export m (Partial g args) = Inr (Partial g args)"
| "export m (PHostFunction p) = Inr (PHostFunction p)"
| "export_sequence m [] = Inr []"
| "export_sequence m (x # xs) =
     (case export m x of
        Inl e \<Rightarrow> Inl e
      | Inr y \<Rightarrow>
          (case export_sequence m xs of Inl e \<Rightarrow> Inl e | Inr ys \<Rightarrow> Inr (y # ys)))"

text \<open>
  One round of the outer loop \<open>while frames:\<close> of \<open>evaluate\<close>: the top frame
  runs until it raises, and the handlers of \<open>_Call\<close> and \<open>_Return\<close> rearrange
  the stack (the top frame is the last of the list).  An error leaves
  \<open>evaluate\<close>.
\<close>

datatype vm_state =
    Running "vmframe list"
  | Finished pyvalue
  | Failed error

definition evaluate_step :: "vm \<Rightarrow> vmframe list \<Rightarrow> vm_state" where
  "evaluate_step m frames =
     (case run_frame m (last frames) of
        (Exhausted, fr) \<Rightarrow> Running (butlast frames @ [fr])
      | (Called c, fr) \<Rightarrow>
          if length (todo fr) = 2
          then Running (butlast frames @ [c])
          else Running (butlast frames @ [fr, c])
      | (Returned v, fr) \<Rightarrow>
          (let frames' = butlast frames in
           if frames' \<noteq> [] then
             (let last_fr = last frames' in
              if todo last_fr = [] then Failed IndexError
              else Running (butlast frames' @
                     [(set_node_value last_fr (last (todo last_fr)) v)
                        \<lparr>todo := butlast (todo last_fr)\<rparr>]))
           else (case export m v of Inl e \<Rightarrow> Failed e | Inr x \<Rightarrow> Finished x))
      | (Raised e, fr) \<Rightarrow> Failed e)"

text \<open>
  The outer loop, for at most \<open>k\<close> rounds: \<open>None\<close> says that it has not ended
  by then.
\<close>

fun evaluate_loop :: "nat \<Rightarrow> vm \<Rightarrow> vmframe list \<Rightarrow> (error + pyvalue) option" where
  "evaluate_loop 0 m frames = None"
| "evaluate_loop (Suc k) m frames =
     (if frames = [] then Some (Inr PNone)
      else (case evaluate_step m frames of
              Running frames' \<Rightarrow> evaluate_loop k m frames'
            | Finished v \<Rightarrow> Some (Inr v)
            | Failed e \<Rightarrow> Some (Inl e)))"

definition evaluate ::
  "nat \<Rightarrow> vm \<Rightarrow> nat \<Rightarrow> pyvalue list \<Rightarrow> (nat \<times> pyvalue) list option \<Rightarrow> (error + pyvalue) option" where
  "evaluate k m g args0 clos =
     (case convert m args0 of
        Inl e \<Rightarrow> Some (Inl e)
      | Inr args \<Rightarrow>
          (case call_frame m g args clos of
             Inl e \<Rightarrow> Some (Inl e)
           | Inr top_frame \<Rightarrow> evaluate_loop k m [top_frame]))"

text \<open>
  Graph 0, \<open>def f(x): return g(x)\<close>, and graph 1, \<open>def g(y): return y\<close>; nodes 9
  and 10 apply \<open>partial\<close> to \<open>g\<close> and \<open>x\<close>, and to \<open>x\<close> alone.
\<close>

definition example_vm :: vm where
  "example_vm =
     \<lparr>vm_nodes = (\<lambda>_. Parameter 0)
        (1 := Constant (PGraph 1), 2 := Apply [1, 0] 0,
         3 := Constant (PPrimitive return_prim), 4 := Apply [3, 2] 0,
         5 := Parameter 1, 6 := Constant (PPrimitive return_prim), 7 := Apply [6, 5] 1,
         8 := Constant (PPrimitive partial_prim), 9 := Apply [8, 1, 0] 0,
         10 := Apply [8, 0] 0),
      vm_graphs = (\<lambda>_. \<lparr>parameters = [0], return_node = Some 4\<rparr>)
        (1 := \<lparr>parameters = [5], return_node = Some 7\<rparr>),
      vm_vars = (\<lambda>_. []),
      vm_order = (\<lambda>_. [1, 0, 2, 4])(1 := [5, 7]),
      implementations = (\<lambda>_ _. Inl NotImplementedError),
      py_implementations = Map.empty,
      convert = Inr\<rparr>"

text \<open>The frame of \<open>f(7)\<close> when the call of \<open>g\<close> is next, and the frame of that call.\<close>

definition example_frame :: vmframe where
  "example_frame = \<lparr>frame_values = [0 \<mapsto> PInt 7], todo = [4, 2], closure = None\<rparr>"

definition example_callee :: vmframe where
  "example_callee = \<lparr>frame_values = [5 \<mapsto> PInt 7], todo = [7, 5], closure = None\<rparr>"

section \<open>Shape inference for primitives (myia/prim/shape\_inferrers.py)\<close>

text \<open>
  \<open>ANYTHING\<close> is the inference engine's marker for a statically unknown
  value.  A query on any track answers either \<open>ANYTHING\<close> or a known value.
\<close>

datatype 'a abstract = ANYTHING | Known 'a

text \<open>A dimension is an integer or \<open>ANYTHING\<close>; a shape is a tuple of dimensions.\<close>

type_synonym dim = "int abstract"

type_synonym shape = "dim list"

text \<open>The types the type track answers with, as far as the inferrers look at them.\<close>

datatype dtype = BoolT | IntT | FloatT | TupleT (elements: "dtype list") | ArrayT dtype

text \<open>
  A shape inferrer is called on argument shapes and answers a shape or raises.
  \<open>if_\<close> calls the inferrers of its branches on no argument.
\<close>

type_synonym inferrer = "shape list \<Rightarrow> error + shape"

text \<open>
  \<open>infer_shape_if\<close>.  \<open>assert_same\<close> is the engine's
  \<open>engine.assert_same('shape', _, _)\<close>; the engine is not part of this
  module and is a parameter here.  The three awaited queries
  (\<open>tb['shape']\<close>, \<open>fb['shape']\<close>, \<open>cond['value']\<close>) are
  passed as their answers.
\<close>

definition infer_shape_if ::
  "((error + shape) \<Rightarrow> (error + shape) \<Rightarrow> error + shape) \<Rightarrow>
   inferrer \<Rightarrow> inferrer \<Rightarrow> pyvalue abstract \<Rightarrow> error + shape" where
  "infer_shape_if assert_same tb_inf fb_inf v =
     (if v = Known (PBool True) then tb_inf []
      else if v = Known (PBool False) then fb_inf []
      else if v = ANYTHING then assert_same (tb_inf []) (fb_inf [])
      else Inl (AssertionError ''Invalid condition value for if.''))"

text \<open>
  \<open>infer_shape_distribute\<close>.  \<open>shp_v\<close> answers \<open>shape['value']\<close>,
  \<open>shp_t\<close> answers \<open>shape['type']\<close>, \<open>v_t\<close> answers
  \<open>v['type']\<close> and \<open>v_shp\<close> answers \<open>v['shape']\<close>.  Reading
  \<open>.elements\<close> of a type that is no tuple type raises AttributeError.
\<close>

definition tuple_elements :: "dtype \<Rightarrow> error + dtype list" where
  "tuple_elements t =
     (case t of TupleT es \<Rightarrow> Inr es
      | _ \<Rightarrow> Inl (AttributeError ''elements''))"

definition target_shape :: "shape abstract \<Rightarrow> dtype \<Rightarrow> error + shape" where
  "target_shape shp_v shp_t =
     (case shp_v of
        Known shp \<Rightarrow> Inr shp
      | ANYTHING \<Rightarrow>
          (case tuple_elements shp_t of
             Inl e \<Rightarrow> Inl e
           | Inr es \<Rightarrow> Inr (replicate (length es) ANYTHING)))"

definition is_Array :: "dtype \<Rightarrow> bool" where
  "is_Array t = (case t of ArrayT _ \<Rightarrow> True | _ \<Rightarrow> False)"

text \<open>The test of the loop body: \<open>vs != s and vs not in (1, ANYTHING) and s not in (1, ANYTHING)\<close>.\<close>

definition dim_clash :: "dim \<Rightarrow> dim \<Rightarrow> bool" where
  "dim_clash vs s =
     (vs \<noteq> s \<and> vs \<notin> {Known 1, ANYTHING} \<and> s \<notin> {Known 1, ANYTHING})"

text \<open>The loop \<open>for vs, s in zip(v_shp, shp)\<close>: it raises at the first clash.\<close>

fun check_dims :: "(dim \<times> dim) list \<Rightarrow> error + unit" where
  "check_dims [] = Inr ()"
| "check_dims ((vs, s) # rest) =
     (if dim_clash vs s
      then Inl (MyiaShapeError ''Cannot change shape when distributing'')
      else check_dims rest)"

definition infer_shape_distribute ::
  "shape abstract \<Rightarrow> dtype \<Rightarrow> dtype \<Rightarrow> shape \<Rightarrow> error + shape" where
  "infer_shape_distribute shp_v shp_t v_t v_shp =
     (case target_shape shp_v shp_t of
        Inl e \<Rightarrow> Inl e
      | Inr shp \<Rightarrow>
          if is_Array v_t then
            if length shp < length v_shp
            then Inl (MyiaShapeError ''Cannot distribute to smaller shape'')
            else (case check_dims (zip v_shp shp) of
                    Inl e \<Rightarrow> Inl e
                  | Inr _ \<Rightarrow> Inr shp)
          else Inr shp)"

definition is_shape_error :: "error + 'a \<Rightarrow> bool" where
  "is_shape_error r = (case r of Inl (MyiaShapeError _) \<Rightarrow> True | _ \<Rightarrow> False)"

section \<open>Properties of the parser state\<close>

text \<open>
  An operation preserves a relation when every run of it, failing or not,
  relates the state before to the state after.
\<close>

definition preserves :: "(pstate \<Rightarrow> pstate \<Rightarrow> bool) \<Rightarrow> 'a pm \<Rightarrow> bool" where
  "preserves R m = (\<forall>s r s'. m s = (r, s') \<longrightarrow> R s s')"

text \<open>
  No graph or block is deallocated, an allocated block keeps its graph, and an
  allocated graph keeps the return node it has.
\<close>

definition returns_kept :: "pstate \<Rightarrow> pstate \<Rightarrow> bool" where
  "returns_kept s s' =
     (next_graph s \<le> next_graph s' \<and> next_block s \<le> next_block s' \<and>
      (\<forall>b. b < next_block s \<longrightarrow> graph (blocks s' b) = graph (blocks s b)) \<and>
      (\<forall>g r. g < next_graph s \<longrightarrow> return_node (graphs s g) = Some r \<longrightarrow>
             return_node (graphs s' g) = Some r))"

text \<open>The graph of block \<open>b\<close> has the return node \<open>r\<close>.\<close>

definition returned :: "nat \<Rightarrow> nat \<Rightarrow> pstate \<Rightarrow> bool" where
  "returned b r s = (return_node (graphs s (graph (blocks s b))) = Some r)"

subsection \<open>What the backfill of phi nodes relies on and keeps\<close>

text \<open>\<open>is_constant\<close> of myia/ir/utils.py, for any class of value.\<close>

definition is_constant :: "anf_node \<Rightarrow> bool" where
  "is_constant nd = (case nd of Constant _ \<Rightarrow> True | _ \<Rightarrow> False)"




text \<open>
  What every read and every backfill leaves as it is, seen from block \<open>b\<close>: no
  node is deallocated, no block is allocated, every block keeps its jumps, predecessors, maturity and
  graph, a bound name stays bound to its node, a node that is no Constant does
  not become one, and block \<open>b\<close> keeps its phi nodes and its parameters.
\<close>

definition frame0 :: "nat \<Rightarrow> pstate \<Rightarrow> pstate \<Rightarrow> bool" where
  "frame0 b s s' =
     (next_node s \<le> next_node s' \<and> next_block s' = next_block s \<and>
      (\<forall>c. jumps (blocks s' c) = jumps (blocks s c) \<and>
           preds (blocks s' c) = preds (blocks s c) \<and>
           matured (blocks s' c) = matured (blocks s c) \<and>
           graph (blocks s' c) = graph (blocks s c)) \<and>
      (\<forall>c x y. variables (blocks s c) x = Some y \<longrightarrow> variables (blocks s' c) x = Some y) \<and>
      (\<forall>x. x < next_node s \<longrightarrow> \<not> is_constant (nodes s x) \<longrightarrow> \<not> is_constant (nodes s' x)) \<and>
      phi_nodes (blocks s' b) = phi_nodes (blocks s b) \<and>
      parameters (graphs s' (graph (blocks s b))) = parameters (graphs s (graph (blocks s b))))"

text \<open>The jumps to block \<open>b\<close> are the nodes they were.\<close>

definition jumps_kept :: "nat \<Rightarrow> pstate \<Rightarrow> pstate \<Rightarrow> bool" where
  "jumps_kept b s s' =
     (\<forall>p j. p < next_block s \<longrightarrow> jumps (blocks s p) b = Some j \<longrightarrow> nodes s' j = nodes s j)"

text \<open>What a read in another block than \<open>b\<close> leaves as it is.\<close>

definition frame :: "nat \<Rightarrow> pstate \<Rightarrow> pstate \<Rightarrow> bool" where
  "frame b s s' = (frame0 b s s' \<and> jumps_kept b s s')"








text \<open>
  \<open>process_While\<close> up to the point where the header block is matured; the
  result is the header block and the block after the loop.
\<close>

definition while_prefix :: "parser \<Rightarrow> nat \<Rightarrow> nat \<Rightarrow> expr \<Rightarrow> stmt list \<Rightarrow> (nat \<times> nat) pm" where
  "while_prefix P d b test body =
     pm_bind Block_new (\<lambda>header_block.
     pm_bind Block_new (\<lambda>body_block.
     pm_bind Block_new (\<lambda>after_block.
     pm_bind (update_block body_block (\<lambda>blk. blk\<lparr>preds := preds blk @ [header_block]\<rparr>)) (\<lambda>_.
     pm_bind (update_block after_block (\<lambda>blk. blk\<lparr>preds := preds blk @ [header_block]\<rparr>)) (\<lambda>_.
     pm_bind (jump b header_block) (\<lambda>_.
     pm_bind (process_expr P d header_block test) (\<lambda>c.
     pm_bind (mature P d body_block) (\<lambda>_.
     pm_bind (cond header_block c body_block after_block) (\<lambda>_.
     pm_bind (process_statements P d body_block body) (\<lambda>after_body.
     pm_bind (jump_if_no_return after_body header_block) (\<lambda>_.
     pm_return (header_block, after_block))))))))))))"





section \<open>The parser: a return node is never overwritten\<close>

lemma returns_kept_refl: "returns_kept s s"
  by (simp add: returns_kept_def)

lemma returns_kept_trans: "returns_kept s t \<Longrightarrow> returns_kept t u \<Longrightarrow> returns_kept s u"
  by (auto simp: returns_kept_def)

lemma rk_return: "preserves returns_kept (pm_return x)"
  by (simp add: preserves_def pm_return_def returns_kept_refl)

lemma rk_raise: "preserves returns_kept (pm_raise e)"
  by (simp add: preserves_def pm_raise_def returns_kept_refl)

lemma rk_get: "preserves returns_kept (pm_get f)"
  by (simp add: preserves_def pm_get_def returns_kept_refl)

lemma rk_bind:
  assumes "preserves returns_kept m" and "\<And>x. preserves returns_kept (f x)"
  shows "preserves returns_kept (pm_bind m f)"
  unfolding preserves_def pm_bind_def
proof (intro allI impI)
  fix s r s'
  assume h: "(case m s of (Inl e, s') \<Rightarrow> (Inl e, s') | (Inr x, s') \<Rightarrow> f x s') = (r, s')"
  obtain r1 s1 where m: "m s = (r1, s1)" by (cases "m s")
  then have 1: "returns_kept s s1" using assms(1) by (simp add: preserves_def)
  show "returns_kept s s'"
  proof (cases r1)
    case (Inl e)
    with h m 1 show ?thesis by simp
  next
    case (Inr x)
    with h m have "f x s1 = (r, s')" by simp
    then have "returns_kept s1 s'" using assms(2) by (simp add: preserves_def)
    with 1 show ?thesis by (rule returns_kept_trans)
  qed
qed

lemma rk_state_fun:
  assumes "\<And>s. preserves returns_kept (m s)"
  shows "preserves returns_kept (\<lambda>s. m s s)"
  using assms by (simp add: preserves_def)

lemma rk_new_node: "preserves returns_kept (new_node nd)"
  by (simp add: preserves_def new_node_def returns_kept_def)

lemma rk_Graph_new: "preserves returns_kept Graph_new"
  by (auto simp: preserves_def Graph_new_def returns_kept_def)

lemma rk_Block_new: "preserves returns_kept Block_new"
  unfolding Block_new_def
  by (rule rk_bind [OF rk_Graph_new]) (simp add: preserves_def returns_kept_def)

lemma rk_update_block:
  assumes "\<And>blk. graph (f blk) = graph blk"
  shows "preserves returns_kept (update_block b f)"
  using assms by (simp add: preserves_def update_block_def pm_modify_def returns_kept_def)

lemma rk_update_preds:
  "preserves returns_kept (update_block b (\<lambda>blk. blk\<lparr>preds := h blk\<rparr>))"
  by (rule rk_update_block) simp

lemma rk_update_jumps:
  "preserves returns_kept (update_block b (\<lambda>blk. blk\<lparr>jumps := h blk\<rparr>))"
  by (rule rk_update_block) simp

lemma rk_update_matured:
  "preserves returns_kept (update_block b (\<lambda>blk. blk\<lparr>matured := h blk\<rparr>))"
  by (rule rk_update_block) simp

lemma rk_update_phi_nodes:
  "preserves returns_kept (update_block b (\<lambda>blk. blk\<lparr>phi_nodes := h blk\<rparr>))"
  by (rule rk_update_block) simp

lemma rk_update_variables:
  "preserves returns_kept (update_block b (\<lambda>blk. blk\<lparr>variables := h blk\<rparr>))"
  by (rule rk_update_block) simp

lemma rk_update_graph_parameters:
  "preserves returns_kept (update_graph g (\<lambda>gr. gr\<lparr>parameters := h gr\<rparr>))"
  by (simp add: preserves_def update_graph_def pm_modify_def returns_kept_def)

lemma rk_block_graph: "preserves returns_kept (block_graph b)"
  by (simp add: block_graph_def rk_get)

lemma rk_fresh: "preserves returns_kept (fresh n)"
  using rk_new_node
  by (auto simp: preserves_def fresh_def returns_kept_refl split: anf_node.splits)

lemma rk_wrap_inputs: "preserves returns_kept (wrap_inputs xs)"
  by (induction xs rule: wrap_inputs.induct)
     (auto intro!: rk_bind rk_return rk_new_node)

lemma rk_graph_apply: "preserves returns_kept (graph_apply g xs)"
  unfolding graph_apply_def by (intro rk_bind rk_wrap_inputs rk_new_node)

lemma rk_get_block_function: "preserves returns_kept (get_block_function b)"
proof -
  have m: "preserves returns_kept (pm_modify (\<lambda>s. s\<lparr>block_map := (block_map s)(b \<mapsto> n)\<rparr>))" for n
    by (simp add: preserves_def pm_modify_def returns_kept_def)
  have new: "preserves returns_kept
      (pm_bind (new_node (Constant (PGraph g))) (\<lambda>n.
         pm_bind (pm_modify (\<lambda>s. s\<lparr>block_map := (block_map s)(b \<mapsto> n)\<rparr>)) (\<lambda>_.
         pm_return n)))" for g
    by (intro rk_bind rk_new_node m rk_return)
  show ?thesis
    unfolding preserves_def
  proof (intro allI impI)
    fix s r s'
    assume h: "get_block_function b s = (r, s')"
    show "returns_kept s s'"
    proof (cases "block_map s b")
      case None
      with h new [of "graph (blocks s b)"] show ?thesis
        by (simp add: get_block_function_def preserves_def)
    next
      case (Some n)
      with h rk_fresh [of n] show ?thesis
        by (simp add: get_block_function_def preserves_def)
    qed
  qed
qed

lemma rk_write_var: "preserves returns_kept (write_var b v n)"
  by (simp add: write_var_def rk_update_variables)

lemma rk_make_resolve: "preserves returns_kept (make_resolve b ns nm)"
  unfolding make_resolve_def
  by (intro rk_bind rk_new_node rk_block_graph rk_graph_apply)

lemma rk_append_input: "preserves returns_kept (append_input j a)"
  by (auto simp: preserves_def append_input_def returns_kept_def split: anf_node.splits)

lemma rk_set_phi_preds:
  assumes "\<And>p v. preserves returns_kept (rd p v)"
  shows "preserves returns_kept (set_phi_preds rd b v ps)"
proof (induction ps)
  case Nil
  show ?case by (simp add: rk_return)
next
  case (Cons p ps)
  have "preserves returns_kept (\<lambda>s. case jumps (blocks s p) b of
                     None \<Rightarrow> (Inl KeyError, s)
                   | Some j \<Rightarrow> append_input j arg s)" for arg
    using rk_append_input
    by (auto simp: preserves_def returns_kept_refl split: option.splits)
  with Cons assms show ?case by (auto intro!: rk_bind)
qed

lemma rk_set_phi_arguments:
  assumes "\<And>p v. preserves returns_kept (rd p v)"
  shows "preserves returns_kept (set_phi_arguments rd b phi)"
  using rk_set_phi_preds [OF assms]
  by (auto simp: preserves_def set_phi_arguments_def returns_kept_refl split: option.splits)

lemma rk_new_phi: "preserves returns_kept (new_phi b v)"
  unfolding new_phi_def
  by (intro rk_bind rk_block_graph rk_new_node rk_update_graph_parameters rk_update_phi_nodes
      rk_write_var rk_return)

lemma rk_read: "preserves returns_kept (read P n b v)"
proof (induction n arbitrary: b v)
  case 0
  show ?case by (simp add: rk_raise)
next
  case (Suc n)
  have phi: "preserves returns_kept
      (pm_bind (new_phi b v) (\<lambda>phi.
           pm_bind (\<lambda>s. if matured (blocks s b)
                         then set_phi_arguments (read P n) b phi s
                         else (Inr (), s)) (\<lambda>_.
           pm_return phi)))"
  proof (intro rk_bind rk_new_phi rk_return)
    fix phi
    show "preserves returns_kept (\<lambda>s. if matured (blocks s b)
                         then set_phi_arguments (read P n) b phi s
                         else (Inr (), s))"
      using rk_set_phi_arguments [of "read P n" b phi] Suc
      by (auto simp: preserves_def returns_kept_refl)
  qed
  show ?case
    unfolding preserves_def
  proof (intro allI impI)
    fix s r s'
    assume h: "read P (Suc n) b v s = (r, s')"
    show "returns_kept s s'"
    proof (cases "variables (blocks s b) v")
      case (Some node)
      with h rk_fresh show ?thesis by (simp add: preserves_def)
    next
      case None
      with h Suc rk_make_resolve phi show ?thesis
        by (auto simp: preserves_def split: if_splits)
    qed
  qed
qed

lemma rk_mature_loop: "preserves returns_kept (mature_loop P n b i)"
proof (induction n arbitrary: i)
  case 0
  show ?case by (simp add: rk_raise)
next
  case (Suc n)
  have body: "preserves returns_kept
     (pm_bind (if c then set_phi_arguments (read P n) b phi else pm_return ())
        (\<lambda>_. mature_loop P n b (Suc i)))" for c phi
    by (intro rk_bind Suc) (auto intro!: rk_set_phi_arguments rk_read rk_return)
  show ?case
    unfolding preserves_def
  proof (intro allI impI)
    fix s r s'
    assume "mature_loop P (Suc n) b i s = (r, s')"
    with body show "returns_kept s s'"
      by (auto simp: preserves_def Let_def returns_kept_refl split: if_splits)
  qed
qed

lemma rk_mature: "preserves returns_kept (mature P n b)"
  unfolding mature_def by (intro rk_bind rk_mature_loop rk_update_matured)

lemma rk_set_return: "preserves returns_kept (set_return g r)"
  by (auto simp: preserves_def set_return_def update_graph_def pm_modify_def returns_kept_def)

lemma rk_jump: "preserves returns_kept (jump b t)"
  unfolding jump_def
  by (intro rk_bind rk_get_block_function rk_block_graph rk_new_node rk_update_jumps
      rk_update_preds rk_set_return rk_return)

lemma rk_cond: "preserves returns_kept (cond b c t f)"
  unfolding cond_def
  by (intro rk_bind rk_get_block_function rk_block_graph rk_new_node rk_update_jumps
      rk_update_preds rk_set_return rk_return)

lemma rk_jump_if_no_return: "preserves returns_kept (jump_if_no_return b t)"
proof -
  have "preserves returns_kept (pm_bind (jump b t) (\<lambda>_. pm_return ()))"
    by (intro rk_bind rk_jump rk_return)
  then show ?thesis
    by (auto simp: preserves_def jump_if_no_return_def returns_kept_refl split: if_splits)
qed

lemma rk_resolve_ast_type: "preserves returns_kept (resolve_ast_type b op)"
  by (auto simp: resolve_ast_type_def rk_raise rk_make_resolve split: option.splits)

lemma rk_resolve_ops: "preserves returns_kept (resolve_ops b ops)"
  by (induction ops) (auto intro!: rk_bind rk_return rk_resolve_ast_type)

lemma rk_cons: "preserves returns_kept (cons b op xs)"
  by (induction xs) (auto intro!: rk_bind rk_new_node rk_block_graph)

lemmas rk_basic =
  rk_bind rk_return rk_raise rk_new_node rk_block_graph rk_make_resolve rk_resolve_ast_type
  rk_resolve_ops rk_cons rk_read rk_write_var rk_update_preds rk_update_graph_parameters
  rk_get_block_function rk_Block_new rk_mature rk_jump rk_cond rk_jump_if_no_return
  rk_set_return

lemma rk_process_expr:
  "preserves returns_kept (process_expr P d b e)"
  "preserves returns_kept (process_exprs P d b es)"
  "preserves returns_kept (process_slice P d b sl)"
proof (induction P d b e and P d b es and P d b sl
    rule: process_expr_process_exprs_process_slice.induct)
  case (1 P d b left op right)
  then show ?case by (simp only: process_expr.simps) (intro rk_basic)
next
  case (2 P d b op operand)
  then show ?case by (simp only: process_expr.simps) (intro rk_basic)
next
  case (3 P d b left ops comparators)
  have inner: "preserves returns_kept
     (if length fs \<noteq> 1 then pm_raise (AssertionError '''')
      else
       pm_bind (process_expr P d b left) (\<lambda>l.
       pm_bind (case comparators of
                  [] \<Rightarrow> pm_raise IndexError
                | c # _ \<Rightarrow> process_expr P d b c) (\<lambda>r.
       pm_bind (block_graph b) (\<lambda>g.
       new_node (Apply [hd fs, l, r] g)))))" for fs
  proof (cases "length fs \<noteq> 1")
    case True
    then show ?thesis by (simp add: rk_raise)
  next
    case False
    have c: "preserves returns_kept (case comparators of
                  [] \<Rightarrow> pm_raise IndexError
                | c # _ \<Rightarrow> process_expr P d b c)"
      using 3(2) [OF False] by (cases comparators) (simp_all add: rk_raise)
    from False show ?thesis
      by (simp only: if_False) (intro rk_basic 3(1) [OF False] c)
  qed
  show ?case
    by (simp only: process_expr.simps) (intro rk_bind rk_resolve_ops inner)
next
  case (4 P d b ident)
  show ?case by (simp add: rk_read)
next
  case (5 P d b n)
  show ?case by (simp add: rk_new_node)
next
  case (6 P d b s)
  show ?case by (simp add: rk_raise)
next
  case (7 P d b func args)
  then show ?case by (simp only: process_expr.simps) (intro rk_basic)
next
  case (8 P d b v)
  show ?case by (simp add: rk_new_node)
next
  case (9 P d b elts)
  then show ?case by (simp only: process_expr.simps) (intro rk_basic)
next
  case (10 P d b v sl)
  then show ?case by (simp only: process_expr.simps) (intro rk_basic)
next
  case (11 P d b v attr)
  then show ?case by (simp only: process_expr.simps) (intro rk_basic)
next
  case (12 P d b cls)
  show ?case by (simp add: rk_raise)
next
  case (13 P d b)
  show ?case by (simp add: rk_return)
next
  case (14 P d b e es)
  then show ?case by (simp only: process_exprs.simps) (intro rk_basic)
next
  case (15 P d b v)
  then show ?case by simp
next
  case (16 P d b cls)
  show ?case by (simp add: rk_raise)
qed

lemma rk_assign_write:
  "preserves returns_kept (assign_write b targ n)"
  "preserves returns_kept (assign_write_elts b elts i n)"
proof (induction b targ n and b elts i n rule: assign_write_assign_write_elts.induct)
  case (14 b elt rest i anf_node)
  then show ?case by (simp only: assign_write_elts.simps) (intro rk_basic)
qed (simp_all add: rk_raise rk_return rk_write_var)

lemma rk_assign_targets: "preserves returns_kept (assign_targets b targets n)"
  by (induction targets) (auto intro!: rk_bind rk_return rk_assign_write)

lemma rk_add_parameters: "preserves returns_kept (add_parameters b args)"
proof (induction args)
  case Nil
  show ?case by (simp add: rk_return)
next
  case (Cons a args)
  then show ?case by (simp only: add_parameters.simps) (intro rk_basic)
qed

lemma rk_set_parser_graph: "preserves returns_kept (set_parser_graph n)"
  by (auto simp: preserves_def set_parser_graph_def returns_kept_def
      split: anf_node.splits pyvalue.splits)

lemma rk_process_stmt:
  "preserves returns_kept (process_stmt P d b st)"
  "preserves returns_kept (process_statements P d b sts)"
  "preserves returns_kept (process_function P d blk name args body)"
proof (induction P d b st and P d b sts and P d blk name args body
    rule: process_stmt_process_statements_process_function.induct)
  case (1 P d b name args body)
  have "preserves returns_kept (case x of (final_block, function_block) \<Rightarrow>
     pm_bind (get_block_function function_block) (\<lambda>fn.
     pm_bind (write_var b name fn) (\<lambda>_.
     pm_return b)))" for x
    by (cases x) (simp, intro rk_basic)
  with 1 show ?case by (simp only: process_stmt.simps) (intro rk_bind)
next
  case (2 P d b v)
  have "preserves returns_kept (case v of
                None \<Rightarrow> pm_raise NotImplementedError
              | Some e \<Rightarrow> process_expr P d b e)"
    by (cases v) (simp_all add: rk_raise rk_process_expr)
  then show ?case by (simp only: process_stmt.simps) (intro rk_basic)
next
  case (3 P d b targets v)
  show ?case
    by (simp only: process_stmt.simps) (intro rk_basic rk_process_expr rk_assign_targets)
next
  case (4 P d b v)
  show ?case by (simp add: rk_return)
next
  case (5 P d b test body orelse)
  then show ?case
    by (simp only: process_stmt.simps) (intro rk_basic rk_process_expr)
next
  case (6 P d b test body orelse)
  then show ?case
    by (simp only: process_stmt.simps) (intro rk_basic rk_process_expr)
next
  case (7 P d b cls)
  show ?case by (simp add: rk_raise)
next
  case (8 P d b)
  show ?case by (simp add: rk_return)
next
  case (9 P d b node rest)
  then show ?case by (simp only: process_statements.simps) (intro rk_basic)
next
  case (10 P d blk name args body)
  have "preserves returns_kept (case blk of
                Some b \<Rightarrow> update_block function_block (\<lambda>blk. blk\<lparr>preds := preds blk @ [b]\<rparr>)
              | None \<Rightarrow> pm_bind (get_block_function function_block) set_parser_graph)"
    for function_block
    by (cases blk) (auto intro!: rk_basic rk_set_parser_graph)
  with 10 show ?case
    by (simp only: process_function.simps) (intro rk_basic rk_add_parameters)
qed

lemma returned_kept:
  assumes "preserves returns_kept m" and "returned b r s"
    and "b < next_block s" and "graph (blocks s b) < next_graph s"
  shows "returned b r (snd (m s))"
proof -
  have "returns_kept s (snd (m s))"
    using assms(1) by (simp add: preserves_def prod_eq_iff)
  with assms(2-4) show ?thesis
    by (simp add: returned_def returns_kept_def)
qed

lemma set_return_asserts:
  "return_node (graphs s g) = Some r \<Longrightarrow> set_return g ret s = (Inl (AssertionError ''''), s)"
  by (simp add: set_return_def)

lemma get_block_function_succeeds:
  "\<exists>n s'. get_block_function t s = (Inr n, s') \<and> graphs s' = graphs s \<and> blocks s' = blocks s"
  by (auto simp: get_block_function_def fresh_def new_node_def pm_bind_def pm_modify_def
      pm_return_def split: option.splits anf_node.splits)

lemma jump_asserts:
  assumes "returned b r s"
  shows "fst (jump b target s) = Inl (AssertionError '''')"
proof -
  obtain n s1 where g: "get_block_function target s = (Inr n, s1)"
    and s1: "graphs s1 = graphs s" "blocks s1 = blocks s"
    using get_block_function_succeeds by blast
  from assms s1 have "return_node (graphs s1 (graph (blocks s1 b))) = Some r"
    by (simp add: returned_def)
  then show ?thesis
    by (simp add: jump_def pm_bind_def g block_graph_def pm_get_def new_node_def
        update_block_def pm_modify_def set_return_def)
qed

lemma cond_asserts:
  assumes "returned b r s"
  shows "fst (cond b c t f s) = Inl (AssertionError '''')"
proof -
  let ?s0 = "s\<lparr>nodes := (nodes s)(next_node s := Constant (PPrimitive if_prim)),
                next_node := Suc (next_node s)\<rparr>"
  obtain n1 s1 where g1: "get_block_function t ?s0 = (Inr n1, s1)"
    and s1: "graphs s1 = graphs ?s0" "blocks s1 = blocks ?s0"
    using get_block_function_succeeds by blast
  obtain n2 s2 where g2: "get_block_function f s1 = (Inr n2, s2)"
    and s2: "graphs s2 = graphs s1" "blocks s2 = blocks s1"
    using get_block_function_succeeds by blast
  from assms s1 s2 have "return_node (graphs s2 (graph (blocks s2 b))) = Some r"
    by (simp add: returned_def)
  then show ?thesis
    by (simp add: cond_def pm_bind_def new_node_def g1 g2 block_graph_def pm_get_def
        set_return_def)
qed

lemma jump_if_no_return_skips:
  "returned b r s \<Longrightarrow> jump_if_no_return b target s = (Inr (), s)"
  by (simp add: jump_if_no_return_def returned_def)

lemma Block_new_result:
  "Block_new s = (Inr (next_block s),
     s\<lparr>graphs := (graphs s)(next_graph s := \<lparr>parameters = [], return_node = None\<rparr>),
       next_graph := Suc (next_graph s),
       blocks := (blocks s)(next_block s :=
          \<lparr>matured = False, variables = Map.empty, preds = [], phi_nodes = Map.empty,
           jumps = Map.empty, graph = next_graph s\<rparr>),
       next_block := Suc (next_block s)\<rparr>)"
  by (simp add: Block_new_def Graph_new_def pm_bind_def)

lemma pm_bind_after:
  "m s = (Inr x, s') \<Longrightarrow> fst (f x s') = Inl e \<Longrightarrow> fst (pm_bind m f s) = Inl e"
  by (simp add: pm_bind_def)

lemma pm_bind_fails:
  "fst (m s) = Inl e \<Longrightarrow> fst (pm_bind m f s) = Inl e"
  by (cases "m s") (simp add: pm_bind_def)

lemma update_block_result:
  "update_block b f s = (Inr (), s\<lparr>blocks := (blocks s)(b := f (blocks s b))\<rparr>)"
  by (simp add: update_block_def pm_modify_def)

lemma while_asserts:
  assumes "returned b r s" and "b < next_block s" and "graph (blocks s b) < next_graph s"
  shows "fst (process_stmt P d b (While test body orelse) s) = Inl (AssertionError '''')"
  apply (simp only: process_stmt.simps)
  apply (rule pm_bind_after [OF Block_new_result])
  apply (rule pm_bind_after [OF Block_new_result])
  apply (rule pm_bind_after [OF Block_new_result])
  apply (rule pm_bind_after [OF update_block_result])
  apply (rule pm_bind_after [OF update_block_result])
  apply (rule pm_bind_fails)
  apply (rule jump_asserts [where r = r])
  using assms apply (simp add: returned_def)
  done

lemma return_asserts:
  assumes "returned b r s" and "b < next_block s" and "graph (blocks s b) < next_graph s"
  shows "\<exists>e. fst (process_stmt P d b (Return v) s) = Inl e"
proof (cases v)
  case None
  then show ?thesis
    by (simp add: pm_bind_def new_node_def pm_raise_def)
next
  case (Some e)
  define m where
    "m = pm_bind (new_node (Constant (PPrimitive return_prim))) (\<lambda>c. process_expr P d b e)"
  have pm: "preserves returns_kept m"
    unfolding m_def by (intro rk_basic rk_process_expr)
  have r1: "returned b r (snd (m s))"
    using returned_kept [OF pm assms] .
  obtain res s1 where ms: "m s = (res, s1)" by (cases "m s")
  let ?s0 = "s\<lparr>nodes := (nodes s)(next_node s := Constant (PPrimitive return_prim)),
                next_node := Suc (next_node s)\<rparr>"
  have e: "process_expr P d b e ?s0 = (res, s1)"
    using ms by (simp add: m_def pm_bind_def new_node_def)
  from r1 ms have r1': "return_node (graphs s1 (graph (blocks s1 b))) = Some r"
    by (simp add: returned_def)
  show ?thesis
  proof (cases res)
    case (Inl err)
    with e Some show ?thesis
      by (simp add: pm_bind_def new_node_def)
  next
    case (Inr x)
    with e Some r1' show ?thesis
      by (simp add: pm_bind_def new_node_def block_graph_def pm_get_def set_return_def)
  qed
qed

text \<open>
  Claim C4.  Let the graph of block \<open>b\<close> have its return node set.  Then \<open>jump\<close> and
  \<open>cond\<close> from \<open>b\<close> fail their assertion, a \<open>return\<close> statement or a \<open>while\<close>
  statement processed in \<open>b\<close> fails, the guarded jump that ends the branches of an
  \<open>if\<close> and the body of a \<open>while\<close> is skipped, and whatever block \<open>jump\<close>, \<open>cond\<close>,
  a statement, a statement list or a function definition is processed in, and
  whether it fails or not, the return node of that graph is afterwards the same.
\<close>

theorem return_never_overwritten:
  assumes "return_node (graphs s (graph (blocks s b))) = Some r"
    and "b < next_block s" and "graph (blocks s b) < next_graph s"
  shows "fst (jump b target s) = Inl (AssertionError '''')
     \<and> fst (cond b c t f s) = Inl (AssertionError '''')
     \<and> (\<exists>e. fst (process_stmt P d b (Return v) s) = Inl e)
     \<and> fst (process_stmt P d b (While test body orelse) s) = Inl (AssertionError '''')
     \<and> jump_if_no_return b target s = (Inr (), s)
     \<and> return_node (graphs (snd (jump b' target s)) (graph (blocks s b))) = Some r
     \<and> return_node (graphs (snd (cond b' c t f s)) (graph (blocks s b))) = Some r
     \<and> return_node (graphs (snd (process_stmt P d b' st s)) (graph (blocks s b))) = Some r
     \<and> return_node (graphs (snd (process_statements P d b' sts s)) (graph (blocks s b))) = Some r
     \<and> return_node (graphs (snd (process_function P d blk name args body s))
          (graph (blocks s b))) = Some r"
proof -
  have r: "returned b r s"
    using assms(1) by (simp add: returned_def)
  have kept: "return_node (graphs (snd (m s)) (graph (blocks s b))) = Some r"
    if "preserves returns_kept m" for m :: "'a pm"
  proof -
    have "returns_kept s (snd (m s))"
      using that by (simp add: preserves_def prod_eq_iff)
    with assms show ?thesis by (simp add: returns_kept_def)
  qed
  show ?thesis
    using jump_asserts [OF r] cond_asserts [OF r] return_asserts [OF r assms(2,3)]
      while_asserts [OF r assms(2,3)] jump_if_no_return_skips [OF r]
      kept [OF rk_jump] kept [OF rk_cond] kept [OF rk_process_stmt(1)]
      kept [OF rk_process_stmt(2)] kept [OF rk_process_stmt(3)]
    by (intro conjI)
qed

theorem return_never_overwritten_witness:
  "return_node (graphs returned_store (graph (blocks returned_store 0))) = Some 1
   \<and> 0 < next_block returned_store
   \<and> graph (blocks returned_store 0) < next_graph returned_store
   \<and> fst (jump 0 1 returned_store) = Inl (AssertionError '''')
   \<and> fst (cond 0 0 1 2 returned_store) = Inl (AssertionError '''')
   \<and> (\<exists>e. fst (process_stmt example_parser 5 0 (Return None) returned_store) = Inl e)
   \<and> fst (process_stmt example_parser 5 0 (While (Num (PInt 1)) [] []) returned_store)
       = Inl (AssertionError '''')
   \<and> jump_if_no_return 0 1 returned_store = (Inr (), returned_store)
   \<and> return_node (graphs (snd (process_statements example_parser 5 0
         [Assign [Name ''x''] (Num (PInt 2)), Return (Some (Name ''x''))] returned_store)) 0) = Some 1"
proof -
  have g: "graph (blocks returned_store 0) = 0"
    and r: "return_node (graphs returned_store 0) = Some 1"
    and nb: "0 < next_block returned_store" and ng: "0 < next_graph returned_store"
    by (simp_all add: returned_store_def)
  have h: "return_node (graphs returned_store (graph (blocks returned_store 0))) = Some 1"
    "0 < next_block returned_store"
    "graph (blocks returned_store 0) < next_graph returned_store"
    using g r nb ng by simp_all
  show ?thesis
    using return_never_overwritten [OF h, where target = 1 and c = 0 and t = 1 and f = 2
        and P = example_parser and d = 5 and v = None and test = "Num (PInt 1)" and body = "[]"
        and orelse = "[]" and b' = 0
        and sts = "[Assign [Name ''x''] (Num (PInt 2)), Return (Some (Name ''x''))]"] h g
    by simp
qed

section \<open>The parser: the cache of parse\<close>

lemma parse_cache_kept:
  "parse_cache w k = Some g \<Longrightarrow> parse_cache (snd (parse d f w)) k = Some g"
  by (auto simp: parse_def split: option.splits prod.splits sum.splits)

lemma parse_calls_cache_kept:
  "parse_cache w k = Some g \<Longrightarrow> parse_cache (parse_calls calls w) k = Some g"
proof (induction calls arbitrary: w)
  case Nil
  then show ?case by simp
next
  case (Cons c calls)
  obtain d f where c: "c = (d, f)" by (cases c)
  from Cons.prems have "parse_cache (snd (parse d f w)) k = Some g"
    by (rule parse_cache_kept)
  then show ?case using Cons.IH c by simp
qed

lemma parse_fills_cache:
  "parse d f w = (Inr g, w') \<Longrightarrow> parse_cache w' (func_id f) = Some g"
  by (auto simp: parse_def split: option.splits prod.splits sum.splits)

text \<open>
  Claim C8.  Once \<open>parse(f)\<close> has answered the graph \<open>g\<close>, every later call of
  \<open>parse(f)\<close>, after any number of calls of \<open>parse\<close> on any functions, answers the
  same graph \<open>g\<close> (the same address, not a copy) and leaves the store as it is.
\<close>

theorem parse_memoized:
  assumes "parse d f w = (Inr g, w')"
  shows "parse d' f (parse_calls calls w') = (Inr g, parse_calls calls w')"
proof -
  have "parse_cache w' (func_id f) = Some g"
    using assms by (rule parse_fills_cache)
  then have "parse_cache (parse_calls calls w') (func_id f) = Some g"
    by (rule parse_calls_cache_kept)
  then show ?thesis by (simp add: parse_def)
qed

lemma example_parse: "fst (parse 1 example_func example_world) = Inr 0"
  by (simp add: parse_def example_func_def example_world_def Parser_parse_def Parser_new_def
      empty_store_def pm_bind_def pm_return_def Block_new_def Graph_new_def
      get_block_function_def new_node_def pm_modify_def set_parser_graph_def mature_def
      update_block_def block_graph_def pm_get_def update_graph_def write_var_def
      fresh_def set_return_def empty_block_def Let_def)

theorem parse_memoized_witness:
  "fst (parse 1 example_func example_world) = Inr 0
   \<and> fst (parse 5 example_func
        (parse_calls [(3, example_func)] (snd (parse 1 example_func example_world)))) = Inr 0"
proof -
  have p: "parse 1 example_func example_world = (Inr 0, snd (parse 1 example_func example_world))"
    using example_parse by (simp add: prod_eq_iff)
  from parse_memoized [OF p, of 5 "[(3, example_func)]"] example_parse show ?thesis
    by simp
qed

section \<open>The parser: reading a name\<close>

text \<open>
  Claim C2, as stated, has \<open>read\<close> return the node a locally bound name is bound
  to.  \<open>read\<close> returns \<open>_fresh(self.variables[varnum])\<close>, and \<open>_fresh\<close> copies a
  Constant: in a block that binds \<open>x\<close> to the Constant at address 0, reading
  \<open>x\<close> answers a new Constant at address 2, another node of the same value.
\<close>

theorem read_local_constant_counterexample:
  "variables (blocks local_store 0) ''x'' = Some 0
   \<and> fst (read example_parser (Suc 0) 0 ''x'' local_store) = Inr 2
   \<and> (2 :: nat) \<noteq> 0"
  by (simp add: local_store_def fresh_def new_node_def)

lemma make_resolve_result:
  "make_resolve b ns nm s =
     (Inr (next_node s + 3),
      s\<lparr>nodes := (nodes s)
           (next_node s := Constant (PNamespace ns),
            next_node s + 1 := Constant (PStr nm),
            next_node s + 2 := Constant (PPrimitive resolve_prim),
            next_node s + 3 :=
              Apply [next_node s + 2, next_node s, next_node s + 1] (graph (blocks s b))),
         next_node := next_node s + 4\<rparr>)"
  by (simp add: make_resolve_def pm_bind_def new_node_def block_graph_def pm_get_def
      graph_apply_def pm_return_def numeral_3_eq_3 numeral_2_eq_2 eval_nat_numeral)

lemma new_phi_result:
  "new_phi b v s =
     (Inr (next_node s),
      s\<lparr>nodes := (nodes s)(next_node s := Parameter (graph (blocks s b))),
         next_node := Suc (next_node s),
         graphs := (graphs s)(graph (blocks s b) :=
            (graphs s (graph (blocks s b)))
              \<lparr>parameters := parameters (graphs s (graph (blocks s b))) @ [next_node s]\<rparr>),
         blocks := (blocks s)(b :=
            (blocks s b)\<lparr>phi_nodes := (phi_nodes (blocks s b))(next_node s \<mapsto> v),
                          variables := (variables (blocks s b))(v \<mapsto> next_node s)\<rparr>)\<rparr>)"
  by (simp add: new_phi_def pm_bind_def block_graph_def pm_get_def new_node_def
      update_graph_def pm_modify_def update_block_def write_var_def pm_return_def)

text \<open>
  Claim C2, amended.  \<open>read(name)\<close> resolves in this order.  A locally bound name
  answers the bound node, or a fresh Constant of the same value when the bound
  node is a Constant.  Otherwise a matured block with exactly one predecessor
  reads the name in that predecessor; a matured block with no predecessor emits
  \<open>apply(resolve, namespace, name)\<close> with the closure namespace when it contains
  the name and the module namespace otherwise; an immature block allocates a
  fresh Parameter of its graph, records it as a phi node and writes it locally;
  a matured block with two or more predecessors does the same and then
  backfills the arguments of the new phi node at once.
\<close>

theorem read_resolution:
  "(\<forall>node. variables (blocks s b) varnum = Some node \<longrightarrow>
      read P (Suc n) b varnum s =
        (case nodes s node of
           Constant v \<Rightarrow>
             (Inr (next_node s),
              s\<lparr>nodes := (nodes s)(next_node s := Constant v), next_node := Suc (next_node s)\<rparr>)
         | _ \<Rightarrow> (Inr node, s)))
   \<and> (variables (blocks s b) varnum = None \<longrightarrow>
        (\<forall>p. matured (blocks s b) \<and> preds (blocks s b) = [p] \<longrightarrow>
           read P (Suc n) b varnum s = read P n p varnum s)
        \<and> (matured (blocks s b) \<and> preds (blocks s b) = [] \<longrightarrow>
             read P (Suc n) b varnum s =
               make_resolve b
                 (if varnum \<in> set (closure_vars P) then ClosureNamespace (function_id P)
                  else ModuleNamespace (function_module P)) varnum s)
        \<and> (\<not> matured (blocks s b) \<longrightarrow>
             read P (Suc n) b varnum s = new_phi b varnum s)
        \<and> (matured (blocks s b) \<and> 2 \<le> length (preds (blocks s b)) \<longrightarrow>
             read P (Suc n) b varnum s =
               (case set_phi_arguments (read P n) b (next_node s) (snd (new_phi b varnum s)) of
                  (Inl e, s') \<Rightarrow> (Inl e, s')
                | (Inr _, s') \<Rightarrow> (Inr (next_node s), s'))))"
proof (intro conjI allI impI)
  fix node
  assume "variables (blocks s b) varnum = Some node"
  then show "read P (Suc n) b varnum s =
        (case nodes s node of
           Constant v \<Rightarrow>
             (Inr (next_node s),
              s\<lparr>nodes := (nodes s)(next_node s := Constant v), next_node := Suc (next_node s)\<rparr>)
         | _ \<Rightarrow> (Inr node, s))"
    by (simp add: fresh_def new_node_def split: anf_node.splits)
next
  fix p
  assume "variables (blocks s b) varnum = None" "matured (blocks s b) \<and> preds (blocks s b) = [p]"
  then show "read P (Suc n) b varnum s = read P n p varnum s"
    by simp
next
  assume "variables (blocks s b) varnum = None" "matured (blocks s b) \<and> preds (blocks s b) = []"
  then show "read P (Suc n) b varnum s =
               make_resolve b
                 (if varnum \<in> set (closure_vars P) then ClosureNamespace (function_id P)
                  else ModuleNamespace (function_module P)) varnum s"
    by simp
next
  assume "variables (blocks s b) varnum = None" "\<not> matured (blocks s b)"
  then show "read P (Suc n) b varnum s = new_phi b varnum s"
    by (simp add: pm_bind_def new_phi_result pm_return_def)
next
  assume "variables (blocks s b) varnum = None"
    "matured (blocks s b) \<and> 2 \<le> length (preds (blocks s b))"
  then show "read P (Suc n) b varnum s =
               (case set_phi_arguments (read P n) b (next_node s) (snd (new_phi b varnum s)) of
                  (Inl e, s') \<Rightarrow> (Inl e, s')
                | (Inr _, s') \<Rightarrow> (Inr (next_node s), s'))"
    by (cases "preds (blocks s b)")
       (auto simp: pm_bind_def new_phi_result pm_return_def split: prod.splits sum.splits)
qed

theorem read_resolution_witness:
  "variables (blocks local_store 0) ''x'' = Some 0
   \<and> read example_parser (Suc 0) 0 ''x'' local_store =
       (Inr 2, local_store\<lparr>nodes := (nodes local_store)(2 := Constant (PInt 1)), next_node := 3\<rparr>)
   \<and> variables (blocks local_store 0) ''y'' = Some 1
   \<and> read example_parser (Suc 0) 0 ''y'' local_store = (Inr 1, local_store)
   \<and> read example_parser (Suc 0) 0 ''k'' local_store =
       make_resolve 0 (ClosureNamespace 0) ''k'' local_store
   \<and> read example_parser (Suc 0) 0 ''g'' local_store =
       make_resolve 0 (ModuleNamespace ''__main__'') ''g'' local_store
   \<and> \<not> matured (blocks local_store 1)
   \<and> read example_parser (Suc 0) 1 ''z'' local_store = new_phi 1 ''z'' local_store
   \<and> fst (read example_parser (Suc 0) 1 ''z'' local_store) = Inr 2
   \<and> preds (blocks local_store 2) = [0]
   \<and> read example_parser (Suc (Suc 0)) 2 ''y'' local_store =
       read example_parser (Suc 0) 0 ''y'' local_store"
proof -
  have x: "variables (blocks local_store 0) ''x'' = Some 0"
    and y: "variables (blocks local_store 0) ''y'' = Some 1"
    and k: "variables (blocks local_store 0) ''k'' = None"
    and g: "variables (blocks local_store 0) ''g'' = None"
    and m: "matured (blocks local_store 0) \<and> preds (blocks local_store 0) = []"
    and n0: "nodes local_store 0 = Constant (PInt 1)"
    and n1: "nodes local_store (Suc 0) = Parameter 0"
    and nn: "next_node local_store = 2"
    by (simp_all add: local_store_def)
  have z: "variables (blocks local_store 1) ''z'' = None"
    and m1: "\<not> matured (blocks local_store 1)"
    and y2: "variables (blocks local_store 2) ''y'' = None"
    and m2: "matured (blocks local_store 2) \<and> preds (blocks local_store 2) = [0]"
    by (simp_all add: local_store_def)
  have p2: "preds (blocks local_store 2) = [0]" using m2 by simp
  have phi: "fst (new_phi 1 ''z'' local_store) = Inr 2"
    by (simp add: new_phi_result nn)
  have a: "variables (blocks local_store 0) ''x'' = Some 0
   \<and> read example_parser (Suc 0) 0 ''x'' local_store =
       (Inr 2, local_store\<lparr>nodes := (nodes local_store)(2 := Constant (PInt 1)), next_node := 3\<rparr>)
   \<and> variables (blocks local_store 0) ''y'' = Some 1
   \<and> read example_parser (Suc 0) 0 ''y'' local_store = (Inr 1, local_store)
   \<and> read example_parser (Suc 0) 0 ''k'' local_store =
       make_resolve 0 (ClosureNamespace 0) ''k'' local_store
   \<and> read example_parser (Suc 0) 0 ''g'' local_store =
       make_resolve 0 (ModuleNamespace ''__main__'') ''g'' local_store"
    using read_resolution [of local_store 0 "''x''" example_parser 0]
      read_resolution [of local_store 0 "''y''" example_parser 0]
      read_resolution [of local_store 0 "''k''" example_parser 0]
      read_resolution [of local_store 0 "''g''" example_parser 0]
    by (simp add: x y k g m n0 n1 nn example_parser_def del: read.simps)
  have b: "read example_parser (Suc 0) 1 ''z'' local_store = new_phi 1 ''z'' local_store"
    using read_resolution [of local_store 1 "''z''" example_parser 0] z m1 by blast
  have c: "read example_parser (Suc (Suc 0)) 2 ''y'' local_store =
       read example_parser (Suc 0) 0 ''y'' local_store"
    using read_resolution [of local_store 2 "''y''" example_parser "Suc 0"] y2 m2 by blast
  from a m1 b phi p2 c show ?thesis by (simp del: read.simps)
qed

text \<open>
  Claim C7, as stated, has the read of a name that no namespace contains raise
  \<open>UnresolvedName\<close> in a matured block without predecessors.  \<open>read\<close> looks the
  name up in the closure namespace only; whatever the module namespace holds,
  the read succeeds and answers a node.
\<close>

theorem read_unresolved_counterexample:
  "variables (blocks local_store 0) ''nowhere'' = None
   \<and> matured (blocks local_store 0)
   \<and> preds (blocks local_store 0) = []
   \<and> ''nowhere'' \<notin> set (closure_vars example_parser)
   \<and> fst (read example_parser (Suc 0) 0 ''nowhere'' local_store) = Inr 5"
  by (simp add: local_store_def example_parser_def make_resolve_def pm_bind_def new_node_def
      block_graph_def pm_get_def graph_apply_def pm_return_def)

text \<open>
  Claim C7, amended.  In a matured block without predecessors, the read of a
  name that is not bound locally and not in the closure namespace raises
  nothing: it allocates the Constants of the module namespace, of the name and
  of the \<open>resolve\<close> primitive, and answers the new node
  \<open>apply(resolve, module namespace, name)\<close> of the block's graph.  The module
  namespace is not looked into.
\<close>

theorem read_unbound_resolves:
  assumes "variables (blocks s b) varnum = None"
    and "matured (blocks s b)" and "preds (blocks s b) = []"
    and "varnum \<notin> set (closure_vars P)"
  shows "read P (Suc n) b varnum s =
     (Inr (next_node s + 3),
      s\<lparr>nodes := (nodes s)
           (next_node s := Constant (PNamespace (ModuleNamespace (function_module P))),
            next_node s + 1 := Constant (PStr varnum),
            next_node s + 2 := Constant (PPrimitive resolve_prim),
            next_node s + 3 :=
              Apply [next_node s + 2, next_node s, next_node s + 1] (graph (blocks s b))),
         next_node := next_node s + 4\<rparr>)"
  using assms by (simp add: make_resolve_result)

theorem read_unbound_resolves_witness:
  "variables (blocks local_store 0) ''nowhere'' = None
   \<and> matured (blocks local_store 0)
   \<and> preds (blocks local_store 0) = []
   \<and> ''nowhere'' \<notin> set (closure_vars example_parser)
   \<and> fst (read example_parser (Suc 0) 0 ''nowhere'' local_store) = Inr 5
   \<and> nodes (snd (read example_parser (Suc 0) 0 ''nowhere'' local_store)) 5 = Apply [4, 2, 3] 0
   \<and> nodes (snd (read example_parser (Suc 0) 0 ''nowhere'' local_store)) 2 =
       Constant (PNamespace (ModuleNamespace ''__main__''))"
proof -
  have h: "variables (blocks local_store 0) ''nowhere'' = None"
    "matured (blocks local_store 0)" "preds (blocks local_store 0) = []"
    "''nowhere'' \<notin> set (closure_vars example_parser)"
    by (simp_all add: local_store_def example_parser_def)
  have nn: "next_node local_store = 2" "graph (blocks local_store 0) = 0"
    "function_module example_parser = ''__main__''"
    by (simp_all add: local_store_def example_parser_def)
  show ?thesis
    using read_unbound_resolves [OF h, of 0] h
    by (simp add: nn del: read.simps)
qed

section \<open>The parser: backfilling phi nodes\<close>















lemma frame_jumps: "frame b s s' \<Longrightarrow> jumps (blocks s' c) = jumps (blocks s c)"
  by (simp add: frame_def frame0_def)

































lemma pm_bind_assoc: "pm_bind (pm_bind m f) g = pm_bind m (\<lambda>x. pm_bind (f x) g)"
  by (auto simp: pm_bind_def fun_eq_iff split: prod.splits sum.splits)

lemma pm_bind_return: "pm_bind (pm_return x) f = f x"
  by (simp add: pm_bind_def pm_return_def)

lemma process_while_split:
  "process_stmt P d b (While test body orelse) =
     pm_bind (while_prefix P d b test body) (\<lambda>(header_block, after_block).
     pm_bind (mature P d header_block) (\<lambda>_.
     pm_bind (mature P d after_block) (\<lambda>_.
     pm_return after_block)))"
  by (simp add: while_prefix_def pm_bind_assoc pm_bind_return)






section \<open>The virtual machine: results\<close>

lemma run_frame_todo:
  "run_frame m fr = (sig, fr') \<Longrightarrow>
     (todo fr' \<noteq> [] \<longrightarrow> todo fr \<noteq> [] \<and> hd (todo fr') = hd (todo fr))
     \<and> (sig = Exhausted \<longleftrightarrow> todo fr' = [])
     \<and> (\<forall>c. sig = Called c \<longrightarrow> handle_node m (last (todo fr')) fr' = Call_signal c)
     \<and> (\<forall>v. sig = Returned v \<longrightarrow> handle_node m (last (todo fr')) fr' = Return_signal v)
     \<and> (\<forall>e. sig = Raised e \<longrightarrow> handle_node m (last (todo fr')) fr' = Raise e)"
proof (induction m fr arbitrary: sig fr' rule: run_frame.induct)
  case (1 m fr)
  show ?case
  proof (cases "todo fr = []")
    case True
    with "1.prems" show ?thesis by (simp add: run_frame.simps [of m fr])
  next
    case False
    show ?thesis
    proof (cases "handle_node m (last (todo fr)) fr")
      case (Normal fr1)
      with False "1.prems"
      have run: "run_frame m (fr1\<lparr>todo := butlast (todo fr)\<rparr>) = (sig, fr')"
        by (simp add: run_frame.simps [of m fr])
      have hdb: "butlast (todo fr) \<noteq> [] \<Longrightarrow> hd (butlast (todo fr)) = hd (todo fr)"
        by (cases "todo fr") auto
      from "1.IH" [OF False Normal run] hdb False show ?thesis by auto
    next
      case (Call_signal c)
      with False "1.prems" show ?thesis by (auto simp: run_frame.simps [of m fr])
    next
      case (Return_signal v)
      with False "1.prems" show ?thesis by (auto simp: run_frame.simps [of m fr])
    next
      case (Raise e)
      with False "1.prems" show ?thesis by (auto simp: run_frame.simps [of m fr])
    qed
  qed
qed

text \<open>
  Claim C3.  When running the top frame ends in a call, the node being handled is
  still the last entry of the frame's todo, whose first entry is the return node.
  If exactly these two entries remain, the new frame replaces the top frame;
  otherwise it is pushed.  When running the top frame ends in a return, the frame
  is popped; if a parent remains, the value is bound to the last entry of the
  parent's todo and that entry is dropped, and if none remains the exported value
  is the result.
\<close>

theorem evaluate_frames:
  assumes "run_frame m fr = (sig, fr')"
  shows "(\<forall>c. sig = Called c \<longrightarrow>
            todo fr' \<noteq> [] \<and> hd (todo fr') = hd (todo fr)
            \<and> handle_node m (last (todo fr')) fr' = Call_signal c
            \<and> (length (todo fr') = 2 \<longrightarrow> evaluate_step m (fs @ [fr]) = Running (fs @ [c]))
            \<and> (length (todo fr') \<noteq> 2 \<longrightarrow> evaluate_step m (fs @ [fr]) = Running (fs @ [fr', c])))
       \<and> (\<forall>v. sig = Returned v \<longrightarrow>
            (\<forall>ps p ns n. todo p = ns @ [n] \<longrightarrow>
               evaluate_step m (ps @ [p, fr]) =
                 Running (ps @ [p\<lparr>frame_values := (frame_values p)(n \<mapsto> v), todo := ns\<rparr>]))
            \<and> evaluate_step m [fr] =
                 (case export m v of Inl e \<Rightarrow> Failed e | Inr x \<Rightarrow> Finished x))"
proof -
  note t = run_frame_todo [OF assms]
  have called: "todo fr' \<noteq> []" if "sig = Called c" for c
    using t that by auto
  show ?thesis
    using assms t called
    by (auto simp: evaluate_step_def set_node_value_def butlast_append)
qed

lemma example_call:
  "handle_node example_vm 2 example_frame = Call_signal example_callee"
  by (simp add: handle_node_def example_vm_def example_frame_def example_callee_def
      frame_get_def vm_call_def call_frame_def VMFrame_new_def set_node_value_def)

lemma example_run: "run_frame example_vm example_frame = (Called example_callee, example_frame)"
proof -
  have t: "todo example_frame = [4, 2]"
    by (simp add: example_frame_def)
  show ?thesis
    by (subst run_frame.simps) (simp add: t example_call)
qed

lemma example_return:
  "run_frame example_vm example_callee = (Returned (PInt 7), example_callee\<lparr>todo := [7]\<rparr>)"
proof -
  have t: "todo example_callee = [7, 5]"
    by (simp add: example_callee_def)
  have 1: "handle_node example_vm 5 example_callee = Normal example_callee"
    by (simp add: handle_node_def example_vm_def)
  have 2: "handle_node example_vm 7 (example_callee\<lparr>todo := [7]\<rparr>) = Return_signal (PInt 7)"
    by (simp add: handle_node_def example_vm_def example_callee_def frame_get_def
        handle_primitive_def)
  have "run_frame example_vm example_callee = run_frame example_vm (example_callee\<lparr>todo := [7]\<rparr>)"
    by (subst run_frame.simps) (simp add: t 1)
  also have "\<dots> = (Returned (PInt 7), example_callee\<lparr>todo := [7]\<rparr>)"
    by (subst run_frame.simps) (simp add: 2)
  finally show ?thesis .
qed

theorem evaluate_frames_witness:
  "run_frame example_vm example_frame = (Called example_callee, example_frame)
   \<and> length (todo example_frame) = 2
   \<and> evaluate_step example_vm [example_frame] = Running [example_callee]
   \<and> run_frame example_vm example_callee = (Returned (PInt 7), example_callee\<lparr>todo := [7]\<rparr>)
   \<and> evaluate_step example_vm [example_frame, example_callee] =
       Running [example_frame\<lparr>frame_values := (frame_values example_frame)(2 \<mapsto> PInt 7),
                               todo := [4]\<rparr>]"
proof -
  have len: "length (todo example_frame) = 2"
    by (simp add: example_frame_def)
  have td: "todo example_frame = [4] @ [2]"
    by (simp add: example_frame_def)
  from evaluate_frames [OF example_run, of "[]"] len
  have tail: "evaluate_step example_vm [example_frame] = Running [example_callee]"
    by simp
  from evaluate_frames [OF example_return, of "[]"]
  have "\<forall>ps p ns n. todo p = ns @ [n] \<longrightarrow>
          evaluate_step example_vm (ps @ [p, example_callee]) =
            Running (ps @ [p\<lparr>frame_values := (frame_values p)(n \<mapsto> PInt 7), todo := ns\<rparr>])"
    by simp
  then have "todo example_frame = [4] @ [2] \<longrightarrow>
          evaluate_step example_vm ([] @ [example_frame, example_callee]) =
            Running ([] @ [example_frame\<lparr>frame_values := (frame_values example_frame)(2 \<mapsto> PInt 7),
                                         todo := [4]\<rparr>])"
    by blast
  with td have ret: "evaluate_step example_vm [example_frame, example_callee] =
       Running [example_frame\<lparr>frame_values := (frame_values example_frame)(2 \<mapsto> PInt 7),
                               todo := [4]\<rparr>]"
    by simp
  from example_run len tail example_return ret show ?thesis
    by (intro conjI)
qed

text \<open>
  Claim C9.  When the callee of an Apply is the \<open>partial\<close> primitive, a first
  argument that is a Graph makes the value of the node a \<open>Partial\<close> of that graph
  and the remaining arguments.  For any other first argument the assertion
  fails, and the evaluation that handles this node ends with that error.
\<close>

theorem partial_requires_graph:
  assumes "vm_nodes m node = Apply (f # a # rest) g0"
    and "frame_get m fr f = Inr (PPrimitive partial_prim)"
    and "frame_gets m fr (a # rest) = Inr (partial_fn # partial_args)"
  shows "(\<forall>g. partial_fn = PGraph g \<longrightarrow>
            handle_node m node fr = Normal (set_node_value fr node (Partial g partial_args))
            \<and> frame_values (set_node_value fr node (Partial g partial_args)) node =
                Some (Partial g partial_args))
       \<and> ((\<forall>g. partial_fn \<noteq> PGraph g) \<longrightarrow>
            handle_node m node fr = Raise (AssertionError '''')
            \<and> (todo fr \<noteq> [] \<and> last (todo fr) = node \<longrightarrow>
                 (\<forall>k frames. evaluate_loop (Suc k) m (frames @ [fr]) =
                    Some (Inl (AssertionError '''')))))"
proof (intro conjI allI impI)
  fix g
  assume "partial_fn = PGraph g"
  with assms show "handle_node m node fr = Normal (set_node_value fr node (Partial g partial_args))"
    by (simp add: handle_node_def handle_primitive_def)
  show "frame_values (set_node_value fr node (Partial g partial_args)) node =
          Some (Partial g partial_args)"
    by (simp add: set_node_value_def)
next
  assume ng: "\<forall>g. partial_fn \<noteq> PGraph g"
  with assms show h: "handle_node m node fr = Raise (AssertionError '''')"
    by (cases partial_fn) (simp_all add: handle_node_def handle_primitive_def)
  fix k frames
  assume "todo fr \<noteq> [] \<and> last (todo fr) = node"
  with h have "run_frame m fr = (Raised (AssertionError ''''), fr)"
    by (subst run_frame.simps) simp
  then show "evaluate_loop (Suc k) m (frames @ [fr]) = Some (Inl (AssertionError ''''))"
    by (simp add: evaluate_step_def)
qed

theorem partial_requires_graph_witness:
  "handle_node example_vm 9 example_frame =
     Normal (set_node_value example_frame 9 (Partial 1 [PInt 7]))
   \<and> handle_node example_vm 10 example_frame = Raise (AssertionError '''')
   \<and> evaluate_loop (Suc 0) example_vm [example_frame\<lparr>todo := [4, 10]\<rparr>] =
       Some (Inl (AssertionError ''''))"
proof -
  have n9: "vm_nodes example_vm 9 = Apply [8, 1, 0] 0"
    and n10: "vm_nodes example_vm 10 = Apply [8, 0] 0"
    by (simp_all add: example_vm_def)
  have f8: "frame_get example_vm fr 8 = Inr (PPrimitive partial_prim)"
    if "frame_values fr = [0 \<mapsto> PInt 7]" "closure fr = None" for fr
    using that by (simp add: frame_get_def example_vm_def)
  have a9: "frame_gets example_vm example_frame [1, 0] = Inr [PGraph 1, PInt 7]"
    by (simp add: frame_get_def example_vm_def example_frame_def)
  have a10: "frame_gets example_vm fr [0] = Inr [PInt 7]"
    if "frame_values fr = [0 \<mapsto> PInt 7]" "closure fr = None" for fr
    using that by (simp add: frame_get_def example_vm_def)
  have fv: "frame_values example_frame = [0 \<mapsto> PInt 7]" "closure example_frame = None"
    by (simp_all add: example_frame_def)
  have fv': "frame_values (example_frame\<lparr>todo := [4, 10]\<rparr>) = [0 \<mapsto> PInt 7]"
    "closure (example_frame\<lparr>todo := [4, 10]\<rparr>) = None"
    by (simp_all add: example_frame_def)
  have graph_case: "handle_node example_vm 9 example_frame =
     Normal (set_node_value example_frame 9 (Partial 1 [PInt 7]))"
    using partial_requires_graph [OF n9 f8 [OF fv] a9] by simp
  have other_case: "handle_node example_vm 10 example_frame = Raise (AssertionError '''')"
    using partial_requires_graph [OF n10 f8 [OF fv] a10 [OF fv]] by simp
  have "\<forall>k frames. evaluate_loop (Suc k) example_vm (frames @ [example_frame\<lparr>todo := [4, 10]\<rparr>]) =
          Some (Inl (AssertionError ''''))"
    using partial_requires_graph [OF n10 f8 [OF fv'] a10 [OF fv']]
    by (simp del: evaluate_loop.simps)
  then have "evaluate_loop (Suc 0) example_vm ([] @ [example_frame\<lparr>todo := [4, 10]\<rparr>]) =
          Some (Inl (AssertionError ''''))"
    by blast
  with graph_case other_case show ?thesis
    by (simp del: evaluate_loop.simps)
qed

section \<open>Shape inference: results\<close>

lemma check_dims_ok:
  "check_dims ps = Inr () \<longleftrightarrow> (\<forall>p \<in> set ps. \<not> dim_clash (fst p) (snd p))"
  by (induction ps rule: check_dims.induct) auto

lemma check_dims_error:
  "check_dims ps \<noteq> Inr () \<Longrightarrow>
   check_dims ps = Inl (MyiaShapeError ''Cannot change shape when distributing'')"
  by (induction ps rule: check_dims.induct) auto

text \<open>
  Claim C5.  Shape inference for \<open>if_(c, t, f)\<close> answers the shape inferred for the
  true branch when the value of \<open>c\<close> is \<open>True\<close>, the shape inferred for the
  false branch when it is \<open>False\<close>, the engine's \<open>assert_same\<close> of both
  branch shapes when it is \<open>ANYTHING\<close>, and raises for every other value.  The
  unification itself is the engine's; the statement holds for every engine.
\<close>

theorem infer_shape_if_dispatch:
  "infer_shape_if assert_same tb_inf fb_inf (Known (PBool True)) = tb_inf []
   \<and> infer_shape_if assert_same tb_inf fb_inf (Known (PBool False)) = fb_inf []
   \<and> infer_shape_if assert_same tb_inf fb_inf ANYTHING = assert_same (tb_inf []) (fb_inf [])
   \<and> (\<forall>v. v \<noteq> Known (PBool True) \<and> v \<noteq> Known (PBool False) \<and> v \<noteq> ANYTHING \<longrightarrow>
          infer_shape_if assert_same tb_inf fb_inf v =
            Inl (AssertionError ''Invalid condition value for if.''))"
  by (simp add: infer_shape_if_def)

theorem infer_shape_if_dispatch_witness:
  "infer_shape_if (\<lambda>a b. a) (\<lambda>_. Inr [Known 2]) (\<lambda>_. Inr [Known 3]) (Known (PInt 1)) =
     Inl (AssertionError ''Invalid condition value for if.'')
   \<and> infer_shape_if (\<lambda>a b. a) (\<lambda>_. Inr [Known 2]) (\<lambda>_. Inr [Known 3]) (Known (PBool True)) =
     Inr [Known 2]
   \<and> infer_shape_if (\<lambda>a b. a) (\<lambda>_. Inr [Known 2]) (\<lambda>_. Inr [Known 3]) (Known (PBool False)) =
     Inr [Known 3]"
  using infer_shape_if_dispatch [of "\<lambda>a b. a" "\<lambda>_. Inr [Known 2]" "\<lambda>_. Inr [Known 3]"]
  by simp

text \<open>
  Claim C6, as stated, asks for an error whenever a dimension of \<open>v\<close> that is
  neither 1 nor \<open>ANYTHING\<close> differs from a target dimension that is not
  \<open>ANYTHING\<close>.  The loop also lets a target dimension 1 pass: distributing
  shape \<open>(3,)\<close> to the target \<open>(1,)\<close> answers \<open>(1,)\<close>.
\<close>

theorem distribute_target_one_counterexample:
  "(Known 3 :: dim) \<notin> {Known 1, ANYTHING}
   \<and> (Known 3 :: dim) \<noteq> Known 1
   \<and> (Known 1 :: dim) \<noteq> ANYTHING
   \<and> is_Array (ArrayT FloatT)
   \<and> infer_shape_distribute (Known [Known 1]) (TupleT [IntT]) (ArrayT FloatT) [Known 3] =
       Inr [Known 1]"
  by (simp add: infer_shape_distribute_def target_shape_def is_Array_def dim_clash_def)

text \<open>
  Claim C6, amended.  \<open>distribute(v, shape)\<close> answers the target shape (the
  explicit value, or an all-\<open>ANYTHING\<close> tuple of the rank of the shape's tuple
  type when the value is \<open>ANYTHING\<close>).  When \<open>v\<close> is an Array it raises a
  shape error if the target has fewer dimensions than \<open>v\<close>, or if some
  dimension of \<open>v\<close> differs from the target dimension at the same position
  while neither of the two is 1 or \<open>ANYTHING\<close>; in every other case it
  answers the target shape.
\<close>

theorem infer_shape_distribute_spec:
  assumes "target_shape shp_v shp_t = Inr shp"
  shows "infer_shape_distribute shp_v shp_t v_t v_shp =
           (if is_Array v_t \<and> length shp < length v_shp
            then Inl (MyiaShapeError ''Cannot distribute to smaller shape'')
            else if is_Array v_t \<and>
                    (\<exists>i < length v_shp. v_shp ! i \<noteq> shp ! i
                        \<and> v_shp ! i \<notin> {Known 1, ANYTHING}
                        \<and> shp ! i \<notin> {Known 1, ANYTHING})
            then Inl (MyiaShapeError ''Cannot change shape when distributing'')
            else Inr shp)"
proof (cases "is_Array v_t \<and> \<not> length shp < length v_shp")
  case False
  then show ?thesis using assms by (auto simp: infer_shape_distribute_def)
next
  case True
  then have len: "length v_shp \<le> length shp" by simp
  have clash: "(\<exists>p \<in> set (zip v_shp shp). dim_clash (fst p) (snd p)) \<longleftrightarrow>
        (\<exists>i < length v_shp. v_shp ! i \<noteq> shp ! i
                        \<and> v_shp ! i \<notin> {Known 1, ANYTHING}
                        \<and> shp ! i \<notin> {Known 1, ANYTHING})"
    using len by (auto simp: set_zip dim_clash_def)
  show ?thesis
  proof (cases "check_dims (zip v_shp shp) = Inr ()")
    case ok: True
    then have "\<not> (\<exists>p \<in> set (zip v_shp shp). dim_clash (fst p) (snd p))"
      by (simp add: check_dims_ok)
    with clash ok True assms show ?thesis
      by (simp add: infer_shape_distribute_def)
  next
    case bad: False
    then have "\<exists>p \<in> set (zip v_shp shp). dim_clash (fst p) (snd p)"
      by (simp add: check_dims_ok)
    with clash bad True assms check_dims_error [OF bad] show ?thesis
      by (simp add: infer_shape_distribute_def)
  qed
qed

theorem infer_shape_distribute_spec_witness:
  "target_shape ANYTHING (TupleT [IntT, IntT]) = Inr [ANYTHING, ANYTHING]
   \<and> infer_shape_distribute ANYTHING (TupleT [IntT, IntT]) (ArrayT FloatT) [Known 4, Known 1] =
       Inr [ANYTHING, ANYTHING]"
  using infer_shape_distribute_spec [of ANYTHING "TupleT [IntT, IntT]" "[ANYTHING, ANYTHING]"
      "ArrayT FloatT" "[Known 4, Known 1]"]
  by (auto simp: target_shape_def tuple_elements_def is_Array_def less_Suc_eq split: if_splits)

text \<open>
  Claim C10.  When \<open>v\<close> is an Array and the target shape has strictly fewer
  dimensions than the shape of \<open>v\<close>, \<open>distribute\<close> raises the shape error
  of the rank test, whatever the dimensions are: the rank is tested before the
  loop over the dimensions.
\<close>

theorem distribute_smaller_rank:
  assumes "is_Array v_t"
    and "target_shape shp_v shp_t = Inr shp"
    and "length shp < length v_shp"
  shows "infer_shape_distribute shp_v shp_t v_t v_shp =
           Inl (MyiaShapeError ''Cannot distribute to smaller shape'')
         \<and> is_shape_error (infer_shape_distribute shp_v shp_t v_t v_shp)"
  using assms by (simp add: infer_shape_distribute_def is_shape_error_def)

theorem distribute_smaller_rank_witness:
  "is_Array (ArrayT FloatT)
   \<and> target_shape (Known [Known 5]) (TupleT [IntT]) = Inr [Known 5]
   \<and> length [Known 5 :: dim] < length [Known 2 :: dim, Known 3]
   \<and> infer_shape_distribute (Known [Known 5]) (TupleT [IntT]) (ArrayT FloatT) [Known 2, Known 3] =
       Inl (MyiaShapeError ''Cannot distribute to smaller shape'')"
  using distribute_smaller_rank [of "ArrayT FloatT" "Known [Known 5]" "TupleT [IntT]" "[Known 5]"
      "[Known 2, Known 3]"]
  by (simp add: is_Array_def target_shape_def)

end
